theory Spec2Isabelle
  imports
    Main
    "HOL-Library.Word"
    "HOL-Library.Multiset"
    "HOL-Library.AList"
    "HOL-Library.Char_ord"
    "HOL-Library.List_Lexorder"
begin

section \<open>Data supplied by the Tailscale client library\<close>

text \<open>
  The package \<open>libts\<close> builds its \<open>State\<close> from three answers of the Tailscale
  daemon. Their Go types live in the Tailscale modules; the records below carry the
  fields that \<open>libts\<close> reads. A Go pointer that may be nil is an \<open>option\<close>, an
  \<open>int64\<close> is a \<open>64 word\<close> (addition wraps), a 32-byte key is a \<open>256 word\<close>, and a
  Go string is a \<open>string\<close> (a list of bytes, ordered bytewise as Go orders strings).
\<close>

type_synonym UserID = "64 word"
type_synonym StableNodeID = string
type_synonym NodePublic = "256 word"
type_synonym NLPublic = "256 word"

text \<open>\<open>ipn.State\<close>, with \<open>NoState\<close> as its zero value.\<close>

datatype ipn_State =
  NoState | InUseOtherUser | NeedsLogin | NeedsMachineAuth | Stopped | Starting | Running

record UserProfile =
  ID :: UserID
  LoginName :: string
  DisplayName :: string
  ProfilePicURL :: string

record PeerStatus =
  ID :: StableNodeID
  PublicKey :: NodePublic
  HostName :: string
  DNSName :: string
  UserID :: UserID
  Tags :: "string list option"
  ExitNodeOption :: bool
  RxBytes :: "64 word"
  TxBytes :: "64 word"

record ExitNodeStatus =
  ID :: StableNodeID
  Online :: bool

text \<open>
  \<open>ipnstate.Status\<close>. The field \<open>Peer\<close> is a Go map from node keys to peers, and
  \<open>GetState\<close> only ever ranges over its values: \<open>Peer\<close> is the list of these peers
  in the order in which the \<open>range\<close> statement visits them. Go leaves that order open,
  so two lists with the same elements stand for the same map. The field \<open>User\<close> is a
  Go map that is only looked up.
\<close>

record Status =
  Version :: string
  BackendState :: string
  AuthURL :: string
  Self :: "PeerStatus option"
  ExitNodeStatus :: "ExitNodeStatus option"
  Peer :: "PeerStatus list"
  User :: "UserID \<rightharpoonup> UserProfile"

record NetworkLockStatus =
  Enabled :: bool
  PublicKey :: NLPublic
  NodeKey :: "NodePublic option"
  NodeKeySigned :: bool

text \<open>The fields of \<open>ipn.Prefs\<close> that \<open>libts\<close> sets; \<open>GetState\<close> passes the value on.\<close>

record Prefs =
  WantRunning :: bool
  ExitNodeID :: StableNodeID
  ExitNodeIP :: string

text \<open>\<open>key.NLPublic.IsZero\<close>: the key equals the zero value of its type.\<close>

definition IsZero :: "NLPublic \<Rightarrow> bool" where
  "IsZero k \<longleftrightarrow> k = 0"

text \<open>\<open>ipnstate.PeerStatus.IsTagged\<close>: the tag list is present and not empty.\<close>

definition IsTagged :: "PeerStatus \<Rightarrow> bool" where
  "IsTagged ps = (case Tags ps of None \<Rightarrow> False | Some ts \<Rightarrow> 0 < length ts)"

section \<open>Go values: errors, panics, string comparison, sorting\<close>

text \<open>
  A Go \<open>error\<close> is its message, together with the error it wraps when it was built
  with the verb \<open>%w\<close>.
\<close>

datatype error = ErrorString string | WrapError string error

fun Error :: "error \<Rightarrow> string" where
  "Error (ErrorString s) = s"
| "Error (WrapError s e) = s"

fun Unwrap :: "error \<Rightarrow> error option" where
  "Unwrap (ErrorString s) = None"
| "Unwrap (WrapError s e) = Some e"

text \<open>A call either returns or panics.\<close>

datatype panic = NilPointerDereference

datatype 'a outcome = Returns 'a | Panics panic

fun returned :: "'a outcome \<Rightarrow> 'a option" where
  "returned (Returns x) = Some x"
| "returned (Panics p) = None"

text \<open>\<open>strings.Compare\<close>: bytewise lexicographic comparison.\<close>

definition strings_Compare :: "string \<Rightarrow> string \<Rightarrow> int" where
  "strings_Compare a b = (if a = b then 0 else if a < b then - 1 else 1)"

text \<open>\<open>strings.IndexByte\<close>: the index of the first occurrence of a byte, or \<open>-1\<close>.\<close>

fun IndexByte :: "string \<Rightarrow> char \<Rightarrow> int" where
  "IndexByte [] c = - 1"
| "IndexByte (x # xs) c =
     (if x = c then 0 else (let i = IndexByte xs c in if i = - 1 then - 1 else i + 1))"

text \<open>
  \<open>slices.SortFunc\<close> is a parameter \<open>srt\<close> of the model. Its documentation promises
  that the slice ends up in ascending order for a comparison function that is a strict
  weak ordering, and says that the sort is not guaranteed to be stable. That promise,
  and nothing more, is \<open>SortFunc_contract\<close>.
\<close>

definition strict_weak_ordering :: "('a \<Rightarrow> 'a \<Rightarrow> int) \<Rightarrow> bool" where
  "strict_weak_ordering cmp \<longleftrightarrow>
     (\<forall>a. \<not> cmp a a < 0) \<and>
     (\<forall>a b c. cmp a b < 0 \<longrightarrow> cmp b c < 0 \<longrightarrow> cmp a c < 0) \<and>
     (\<forall>a b c. cmp a b = 0 \<longrightarrow> cmp b c = 0 \<longrightarrow> cmp a c = 0) \<and>
     (\<forall>a b. 0 < cmp a b \<longleftrightarrow> cmp b a < 0)"

definition SortFunc_contract :: "(('a \<Rightarrow> 'a \<Rightarrow> int) \<Rightarrow> 'a list \<Rightarrow> 'a list) \<Rightarrow> bool" where
  "SortFunc_contract srt \<longleftrightarrow>
     (\<forall>cmp xs. mset (srt cmp xs) = mset xs) \<and>
     (\<forall>cmp xs. strict_weak_ordering cmp \<longrightarrow> sorted_wrt (\<lambda>a b. \<not> cmp b a < 0) (srt cmp xs))"

text \<open>
  The insertion sort that \<open>slices.SortFunc\<close> runs on a slice of at most twelve
  elements: each element moves left past its predecessors while it compares less.
  \<open>insertionSort_step\<close> takes the sorted prefix reversed (nearest element first).
\<close>

fun insertionSort_step :: "('a \<Rightarrow> 'a \<Rightarrow> int) \<Rightarrow> 'a \<Rightarrow> 'a list \<Rightarrow> 'a list" where
  "insertionSort_step cmp x [] = [x]"
| "insertionSort_step cmp x (y # ys) =
     (if cmp x y < 0 then y # insertionSort_step cmp x ys else x # y # ys)"

definition insertionSortCmpFunc :: "('a \<Rightarrow> 'a \<Rightarrow> int) \<Rightarrow> 'a list \<Rightarrow> 'a list" where
  "insertionSortCmpFunc cmp xs = rev (foldl (\<lambda>done x. insertionSort_step cmp x done) [] xs)"

section \<open>The package libts: State and GetState\<close>

text \<open>
  The struct \<open>State\<close>. The Go map \<open>OwnedNodes\<close> is an association list with distinct
  keys, read with \<open>map_of\<close>; the order of its entries stands for the order in which a
  \<open>range\<close> statement visits them.
\<close>

record State =
  Prefs :: "Prefs option"
  BackendState :: ipn_State
  TSVersion :: string
  AuthURL :: string
  User :: "UserProfile option"
  Self :: "PeerStatus option"
  LockKey :: "NLPublic option"
  IsLockedOut :: bool
  ExitNodes :: "PeerStatus list"
  MyNodes :: "PeerStatus list"
  TaggedNodes :: "PeerStatus list"
  OwnedNodeKeys :: "string list"
  OwnedNodes :: "(string \<times> PeerStatus list) list"
  CurrentExitNode :: "StableNodeID option"
  CurrentExitNodeName :: string
  RxBytes :: "64 word"
  TxBytes :: "64 word"

text \<open>The zero value \<open>State{}\<close>.\<close>

definition State_zero :: State where
  "State_zero = \<lparr> State.Prefs = None, State.BackendState = NoState, State.TSVersion = [],
     State.AuthURL = [], State.User = None, State.Self = None, State.LockKey = None,
     State.IsLockedOut = False, State.ExitNodes = [], State.MyNodes = [],
     State.TaggedNodes = [], State.OwnedNodeKeys = [], State.OwnedNodes = [],
     State.CurrentExitNode = None, State.CurrentExitNodeName = [],
     State.RxBytes = 0, State.TxBytes = 0 \<rparr>"

text \<open>The zero value of \<open>tailcfg.UserProfile\<close>, which a missing map key yields.\<close>

definition UserProfile_zero :: UserProfile where
  "UserProfile_zero = \<lparr> UserProfile.ID = 0, UserProfile.LoginName = [],
     UserProfile.DisplayName = [], UserProfile.ProfilePicURL = [] \<rparr>"

text \<open>\<open>sortNodes\<close>: sort by \<open>PeerName\<close>. \<open>PeerName\<close> is the parameter \<open>pn\<close>.\<close>

definition sortNodes ::
  "((PeerStatus \<Rightarrow> PeerStatus \<Rightarrow> int) \<Rightarrow> PeerStatus list \<Rightarrow> PeerStatus list) \<Rightarrow>
   (PeerStatus \<Rightarrow> string) \<Rightarrow> PeerStatus list \<Rightarrow> PeerStatus list" where
  "sortNodes srt pn nodes = srt (\<lambda>a b. strings_Compare (pn a) (pn b)) nodes"

definition NewIPNStateFromString :: "string \<Rightarrow> ipn_State \<times> error option" where
  "NewIPNStateFromString v =
     (if v = ''NoState'' then (NoState, None)
      else if v = ''InUseOtherUser'' then (InUseOtherUser, None)
      else if v = ''NeedsLogin'' then (NeedsLogin, None)
      else if v = ''NeedsMachineAuth'' then (NeedsMachineAuth, None)
      else if v = ''Stopped'' then (Stopped, None)
      else if v = ''Starting'' then (Starting, None)
      else if v = ''Running'' then (Running, None)
      else (NoState, Some (ErrorString (''unknown ipn state: '' @ v))))"

text \<open>Indexing a Go map of slices: a missing key yields the nil slice.\<close>

definition map_index :: "('k \<times> 'v list) list \<Rightarrow> 'k \<Rightarrow> 'v list" where
  "map_index m k = (case map_of m k of None \<Rightarrow> [] | Some v \<Rightarrow> v)"

text \<open>The account name of a peer (the body of the last branch of the peer loop).\<close>

definition accountName :: "Status \<Rightarrow> PeerStatus \<Rightarrow> string" where
  "accountName status peer =
     (case Status.User status (PeerStatus.UserID peer) of
        None \<Rightarrow> []
      | Some user \<Rightarrow>
          if UserProfile.DisplayName user = [] then UserProfile.LoginName user
          else UserProfile.DisplayName user)"

text \<open>
  The loop over \<open>status.Peer\<close>. Its second test reads \<open>status.Self.UserID\<close>, which
  panics when \<open>status.Self\<close> is nil.
\<close>

fun GetState_peers :: "Status \<Rightarrow> PeerStatus list \<Rightarrow> State \<Rightarrow> State outcome" where
  "GetState_peers status [] state = Returns state"
| "GetState_peers status (peer # peers) state =
     (let state = state\<lparr>State.TxBytes := State.TxBytes state + PeerStatus.TxBytes peer\<rparr>;
          state = state\<lparr>State.RxBytes := State.RxBytes state + PeerStatus.RxBytes peer\<rparr>
      in if ExitNodeOption peer then
           GetState_peers status peers (state\<lparr>ExitNodes := ExitNodes state @ [peer]\<rparr>)
         else (case Status.Self status of
             None \<Rightarrow> Panics NilPointerDereference
           | Some self \<Rightarrow>
               if PeerStatus.UserID peer = PeerStatus.UserID self then
                 GetState_peers status peers (state\<lparr>MyNodes := MyNodes state @ [peer]\<rparr>)
               else if IsTagged peer then
                 GetState_peers status peers (state\<lparr>TaggedNodes := TaggedNodes state @ [peer]\<rparr>)
               else
                 (let name = accountName status peer;
                      owned = OwnedNodes state;
                      owned = (if map_of owned name = None then AList.update name [] owned
                               else owned);
                      owned = AList.update name (map_index owned name @ [peer]) owned
                  in GetState_peers status peers (state\<lparr>OwnedNodes := owned\<rparr>))))"

text \<open>
  The guards under which the peer loop reaches its second, third and fourth branch,
  as the loop evaluates them. When \<open>status.Self\<close> is nil no peer passes the test of the
  second branch (the loop panics there instead).
\<close>

abbreviation sameUser :: "Status \<Rightarrow> PeerStatus \<Rightarrow> bool" where
  "sameUser status p \<equiv> (Some (PeerStatus.UserID p) = map_option PeerStatus.UserID (Status.Self status))"

abbreviation toMyNodes :: "Status \<Rightarrow> PeerStatus \<Rightarrow> bool" where
  "toMyNodes status p \<equiv> \<not> ExitNodeOption p \<and> sameUser status p"

abbreviation toTaggedNodes :: "Status \<Rightarrow> PeerStatus \<Rightarrow> bool" where
  "toTaggedNodes status p \<equiv> \<not> ExitNodeOption p \<and> \<not> sameUser status p \<and> IsTagged p"

abbreviation toOwnedNodes :: "Status \<Rightarrow> PeerStatus \<Rightarrow> bool" where
  "toOwnedNodes status p \<equiv> \<not> ExitNodeOption p \<and> \<not> sameUser status p \<and> \<not> IsTagged p"

text \<open>
  The loop over \<open>state.OwnedNodes\<close>: every bucket is sorted in place and its key is
  appended to \<open>OwnedNodeKeys\<close>.
\<close>

fun GetState_owned ::
  "((PeerStatus \<Rightarrow> PeerStatus \<Rightarrow> int) \<Rightarrow> PeerStatus list \<Rightarrow> PeerStatus list) \<Rightarrow>
   (PeerStatus \<Rightarrow> string) \<Rightarrow> (string \<times> PeerStatus list) list \<Rightarrow> State \<Rightarrow> State" where
  "GetState_owned srt pn [] state = state"
| "GetState_owned srt pn ((key, val) # rest) state =
     GetState_owned srt pn rest
       (state\<lparr>OwnedNodes := AList.update key (sortNodes srt pn val) (OwnedNodes state),
              OwnedNodeKeys := OwnedNodeKeys state @ [key]\<rparr>)"

text \<open>
  The three calls of \<open>sortNodes\<close>, the loop over \<open>state.OwnedNodes\<close> and the
  sorting of the keys with \<open>slices.Sort\<close>. On strings, which are linearly ordered,
  every correct sort returns the same slice, so \<open>slices.Sort\<close> is \<open>sort\<close>.
\<close>

definition GetState_sort ::
  "((PeerStatus \<Rightarrow> PeerStatus \<Rightarrow> int) \<Rightarrow> PeerStatus list \<Rightarrow> PeerStatus list) \<Rightarrow>
   (PeerStatus \<Rightarrow> string) \<Rightarrow> State \<Rightarrow> State" where
  "GetState_sort srt pn state =
     (let state = state\<lparr>ExitNodes := sortNodes srt pn (ExitNodes state)\<rparr>;
          state = state\<lparr>MyNodes := sortNodes srt pn (MyNodes state)\<rparr>;
          state = state\<lparr>TaggedNodes := sortNodes srt pn (TaggedNodes state)\<rparr>;
          state = GetState_owned srt pn (OwnedNodes state) state
      in state\<lparr>OwnedNodeKeys := sort (OwnedNodeKeys state)\<rparr>)"

text \<open>The version string is cut at its first \<open>-\<close>.\<close>

definition GetState_version :: "State \<Rightarrow> State" where
  "GetState_version state =
     (let versionSplitIndex = IndexByte (State.TSVersion state) CHR ''-''
      in if versionSplitIndex \<noteq> - 1
         then state\<lparr>State.TSVersion := take (nat versionSplitIndex) (State.TSVersion state)\<rparr>
         else state)"

text \<open>
  The profile of the local user: looked up in \<open>status.User\<close> when \<open>status.Self\<close> is
  not nil. A missing key yields the zero profile, and \<open>state.User\<close> points to it.
\<close>

definition GetState_user :: "Status \<Rightarrow> State \<Rightarrow> State" where
  "GetState_user status state =
     (case Status.Self status of
        Some self \<Rightarrow>
          (let user = (case Status.User status (PeerStatus.UserID self) of
                         None \<Rightarrow> UserProfile_zero | Some u \<Rightarrow> u)
           in state\<lparr>State.User := Some user\<rparr>)
      | None \<Rightarrow> state)"

text \<open>The tailnet lock.\<close>

definition GetState_lock :: "NetworkLockStatus \<Rightarrow> State \<Rightarrow> State" where
  "GetState_lock lock state =
     (if Enabled lock \<and> NodeKey lock \<noteq> None \<and> \<not> IsZero (NetworkLockStatus.PublicKey lock)
      then (let state = state\<lparr>LockKey := Some (NetworkLockStatus.PublicKey lock)\<rparr>
            in if \<not> NodeKeySigned lock \<and> State.BackendState state = Running
               then state\<lparr>IsLockedOut := True\<rparr> else state)
      else state)"

text \<open>
  The selected exit node: the loop over \<open>state.ExitNodes\<close> stops at the first peer
  with the selected id.
\<close>

fun GetState_exitName ::
  "(PeerStatus \<Rightarrow> string) \<Rightarrow> StableNodeID \<Rightarrow> PeerStatus list \<Rightarrow> State \<Rightarrow> State" where
  "GetState_exitName pn i [] state = state"
| "GetState_exitName pn i (peer # peers) state =
     (if PeerStatus.ID peer = i then state\<lparr>CurrentExitNodeName := pn peer\<rparr>
      else GetState_exitName pn i peers state)"

definition GetState_exitNode :: "(PeerStatus \<Rightarrow> string) \<Rightarrow> Status \<Rightarrow> State \<Rightarrow> State" where
  "GetState_exitNode pn status state =
     (case Status.ExitNodeStatus status of
        Some ens \<Rightarrow>
          (let state = state\<lparr>CurrentExitNode := Some (ExitNodeStatus.ID ens)\<rparr>
           in GetState_exitName pn (ExitNodeStatus.ID ens) (ExitNodes state) state)
      | None \<Rightarrow> state)"

text \<open>
  \<open>GetState\<close>. The three calls \<open>Status(ctx)\<close>, \<open>Prefs(ctx)\<close> and \<open>LockStatus(ctx)\<close> go to
  the daemon; their results are the arguments \<open>rStatus\<close>, \<open>rPrefs\<close> and \<open>rLock\<close>
  (\<open>Inl\<close> an error, \<open>Inr\<close> the value behind the pointer). The blocks of the function
  body are the functions above, in the order of the source.
\<close>

definition GetState ::
  "((PeerStatus \<Rightarrow> PeerStatus \<Rightarrow> int) \<Rightarrow> PeerStatus list \<Rightarrow> PeerStatus list) \<Rightarrow>
   (PeerStatus \<Rightarrow> string) \<Rightarrow> error + Status \<Rightarrow> error + Prefs \<Rightarrow> error + NetworkLockStatus \<Rightarrow>
   (State \<times> error option) outcome" where
  "GetState srt pn rStatus rPrefs rLock =
     (case rStatus of Inl err \<Rightarrow> Returns (State_zero, Some err) | Inr status \<Rightarrow>
     (case rPrefs of Inl err \<Rightarrow> Returns (State_zero, Some err) | Inr prefs \<Rightarrow>
     (case rLock of Inl err \<Rightarrow> Returns (State_zero, Some err) | Inr lock \<Rightarrow>
     (case NewIPNStateFromString (Status.BackendState status) of
        (backendState, Some err) \<Rightarrow>
          Returns (State_zero,
            Some (WrapError (''cannot get status from state: '' @ Error err) err))
      | (backendState, None) \<Rightarrow>
         (let state = State_zero\<lparr>State.Prefs := Some prefs,
                State.AuthURL := Status.AuthURL status,
                State.BackendState := backendState,
                State.TSVersion := Status.Version status,
                State.Self := Status.Self status,
                State.OwnedNodes := []\<rparr>
          in (case GetState_peers status (Status.Peer status) state of
            Panics p \<Rightarrow> Panics p
          | Returns state \<Rightarrow>
             (let state = GetState_sort srt pn state;
                  state = GetState_version state;
                  state = GetState_user status state;
                  state = GetState_lock lock state;
                  state = GetState_exitNode pn status state
              in Returns (state, None))))))))"

section \<open>An example run\<close>

text \<open>
  A status with seven peers, listed in the order in which the loop visits them, and the
  state that \<open>GetState\<close> returns for it. The owner of the local node is not in the
  user directory; the peer \<open>ex_exitA\<close> is an exit node of the local user; the tag list
  of \<open>ex_owned2\<close> is present and empty.
\<close>

definition ex_self :: PeerStatus where
  "ex_self = \<lparr> PeerStatus.ID = ''self'', PeerStatus.PublicKey = 100, HostName = ''laptop'',
     DNSName = ''laptop.tail.ts.net.'', PeerStatus.UserID = 1, Tags = None,
     ExitNodeOption = False, PeerStatus.RxBytes = 0, PeerStatus.TxBytes = 0 \<rparr>"

definition ex_exitA :: PeerStatus where
  "ex_exitA = \<lparr> PeerStatus.ID = ''n1'', PeerStatus.PublicKey = 101, HostName = ''alpha'',
     DNSName = ''alpha.tail.ts.net.'', PeerStatus.UserID = 1, Tags = None,
     ExitNodeOption = True, PeerStatus.RxBytes = 1000, PeerStatus.TxBytes = 2000 \<rparr>"

text \<open>A second exit node with the display name of \<open>ex_exitA\<close>.\<close>

definition ex_exitA2 :: PeerStatus where
  "ex_exitA2 = \<lparr> PeerStatus.ID = ''n8'', PeerStatus.PublicKey = 108, HostName = ''alpha'',
     DNSName = ''alpha-1.tail.ts.net.'', PeerStatus.UserID = 9, Tags = None,
     ExitNodeOption = True, PeerStatus.RxBytes = 11, PeerStatus.TxBytes = 12 \<rparr>"

definition ex_exitB :: PeerStatus where
  "ex_exitB = \<lparr> PeerStatus.ID = ''n2'', PeerStatus.PublicKey = 102, HostName = ''beta'',
     DNSName = ''beta.tail.ts.net.'', PeerStatus.UserID = 7, Tags = Some [''tag:exit''],
     ExitNodeOption = True, PeerStatus.RxBytes = 10, PeerStatus.TxBytes = 20 \<rparr>"

definition ex_mine :: PeerStatus where
  "ex_mine = \<lparr> PeerStatus.ID = ''n3'', PeerStatus.PublicKey = 103, HostName = ''phone'',
     DNSName = ''phone.tail.ts.net.'', PeerStatus.UserID = 1, Tags = None,
     ExitNodeOption = False, PeerStatus.RxBytes = 3, PeerStatus.TxBytes = 4 \<rparr>"

definition ex_tagged :: PeerStatus where
  "ex_tagged = \<lparr> PeerStatus.ID = ''n4'', PeerStatus.PublicKey = 104, HostName = ''server'',
     DNSName = ''server.tail.ts.net.'', PeerStatus.UserID = 5, Tags = Some [''tag:prod''],
     ExitNodeOption = False, PeerStatus.RxBytes = 100, PeerStatus.TxBytes = 200 \<rparr>"

definition ex_owned :: PeerStatus where
  "ex_owned = \<lparr> PeerStatus.ID = ''n5'', PeerStatus.PublicKey = 105, HostName = ''zeta'',
     DNSName = ''zeta.tail.ts.net.'', PeerStatus.UserID = 9, Tags = None,
     ExitNodeOption = False, PeerStatus.RxBytes = 1, PeerStatus.TxBytes = 2 \<rparr>"

definition ex_owned2 :: PeerStatus where
  "ex_owned2 = \<lparr> PeerStatus.ID = ''n7'', PeerStatus.PublicKey = 107, HostName = ''delta'',
     DNSName = ''delta.tail.ts.net.'', PeerStatus.UserID = 9, Tags = Some [],
     ExitNodeOption = False, PeerStatus.RxBytes = 5, PeerStatus.TxBytes = 6 \<rparr>"

definition ex_unknown :: PeerStatus where
  "ex_unknown = \<lparr> PeerStatus.ID = ''n6'', PeerStatus.PublicKey = 106, HostName = ''ghost'',
     DNSName = ''ghost.tail.ts.net.'', PeerStatus.UserID = 11, Tags = None,
     ExitNodeOption = False, PeerStatus.RxBytes = 7, PeerStatus.TxBytes = 8 \<rparr>"

definition ex_carol :: UserProfile where
  "ex_carol = \<lparr> UserProfile.ID = 9, LoginName = ''carol@example.com'', DisplayName = [],
     ProfilePicURL = [] \<rparr>"

definition ex_status :: Status where
  "ex_status = \<lparr> Version = ''1.70.0-abc123'', Status.BackendState = ''Running'',
     Status.AuthURL = [], Status.Self = Some ex_self,
     Status.ExitNodeStatus = Some \<lparr> ExitNodeStatus.ID = ''n2'', Online = True \<rparr>,
     Peer = [ex_owned, ex_exitB, ex_tagged, ex_exitA, ex_mine, ex_unknown, ex_owned2],
     Status.User = [9 \<mapsto> ex_carol] \<rparr>"

definition ex_prefs :: Prefs where
  "ex_prefs = \<lparr> WantRunning = True, ExitNodeID = ''n2'', ExitNodeIP = [] \<rparr>"

definition ex_lock :: NetworkLockStatus where
  "ex_lock = \<lparr> Enabled = True, NetworkLockStatus.PublicKey = 5, NodeKey = Some 100,
     NodeKeySigned = False \<rparr>"


definition ex_state :: State where
  "ex_state = \<lparr> State.Prefs = Some ex_prefs, State.BackendState = Running,
     State.TSVersion = ''1.70.0'', State.AuthURL = [], State.User = Some UserProfile_zero,
     State.Self = Some ex_self, State.LockKey = Some 5, State.IsLockedOut = True,
     State.ExitNodes = [ex_exitA, ex_exitB], State.MyNodes = [ex_mine],
     State.TaggedNodes = [ex_tagged], State.OwnedNodeKeys = [[], ''carol@example.com''],
     State.OwnedNodes = [(''carol@example.com'', [ex_owned2, ex_owned]), ([], [ex_unknown])],
     State.CurrentExitNode = Some ''n2'', State.CurrentExitNodeName = ''beta'',
     State.RxBytes = 1126, State.TxBytes = 2240 \<rparr>"

section \<open>The insertion sort meets the contract of slices.SortFunc\<close>

lemma swo_trans:
  assumes "strict_weak_ordering cmp" "\<not> cmp b a < 0" "\<not> cmp c b < 0"
  shows "\<not> cmp c a < 0"
proof
  assume ca: "cmp c a < 0"
  from assms(1) have tr: "\<And>a b c. cmp a b < 0 \<Longrightarrow> cmp b c < 0 \<Longrightarrow> cmp a c < 0"
    and eq: "\<And>a b c. cmp a b = 0 \<Longrightarrow> cmp b c = 0 \<Longrightarrow> cmp a c = 0"
    and sw: "\<And>a b. 0 < cmp a b \<longleftrightarrow> cmp b a < 0"
    unfolding strict_weak_ordering_def by blast+
  consider "cmp c b = 0" | "0 < cmp c b" using assms(3) by linarith
  then show False
  proof cases
    case 1
    consider "cmp b a = 0" | "0 < cmp b a" using assms(2) by linarith
    then show False
    proof cases
      case 1
      with \<open>cmp c b = 0\<close> have "cmp c a = 0" by (blast intro: eq)
      with ca show False by simp
    next
      case 2
      then have "cmp a b < 0" by (simp add: sw)
      with ca have "cmp c b < 0" by (blast intro: tr)
      with \<open>cmp c b = 0\<close> show False by simp
    qed
  next
    case 2
    then have "cmp b c < 0" by (simp add: sw)
    then have "cmp b a < 0" using ca by (blast intro: tr)
    with assms(2) show False by simp
  qed
qed

lemma set_insertionSort_step: "set (insertionSort_step cmp x ys) = insert x (set ys)"
  by (induction ys) auto

lemma swo_flip: "strict_weak_ordering cmp \<Longrightarrow> cmp x y < 0 \<Longrightarrow> \<not> cmp y x < 0"
  unfolding strict_weak_ordering_def by (metis less_asym) 

lemma sorted_insertionSort_step:
  assumes swo: "strict_weak_ordering cmp"
  shows "sorted_wrt (\<lambda>a b. \<not> cmp a b < 0) ys \<Longrightarrow>
    sorted_wrt (\<lambda>a b. \<not> cmp a b < 0) (insertionSort_step cmp x ys)"
proof (induction ys)
  case Nil
  then show ?case by simp
next
  case (Cons y ys)
  show ?case
  proof (cases "cmp x y < 0")
    case True
    then have "\<not> cmp y x < 0" using swo by (rule swo_flip[rotated])
    with True Cons show ?thesis by (auto simp: set_insertionSort_step)
  next
    case False
    have "\<not> cmp x z < 0" if "z \<in> set ys" for z
    proof -
      from Cons.prems that have "\<not> cmp y z < 0" by simp
      with swo show ?thesis using False by (rule swo_trans)
    qed
    with False Cons.prems show ?thesis by auto
  qed
qed

lemma sorted_foldl_step:
  assumes swo: "strict_weak_ordering cmp"
  shows "sorted_wrt (\<lambda>a b. \<not> cmp a b < 0) acc \<Longrightarrow>
    sorted_wrt (\<lambda>a b. \<not> cmp a b < 0) (foldl (\<lambda>done x. insertionSort_step cmp x done) acc xs)"
  by (induction xs arbitrary: acc) (simp_all add: sorted_insertionSort_step[OF swo])

lemma mset_insertionSort_step: "mset (insertionSort_step cmp x ys) = add_mset x (mset ys)"
  by (induction ys) auto

lemma mset_foldl_step:
  "mset (foldl (\<lambda>done x. insertionSort_step cmp x done) acc xs) = mset acc + mset xs"
  by (induction xs arbitrary: acc) (auto simp: mset_insertionSort_step)

lemma insertionSortCmpFunc_contract: "SortFunc_contract insertionSortCmpFunc"
  unfolding SortFunc_contract_def insertionSortCmpFunc_def
  using sorted_foldl_step[of _ "[]"]
  by (auto simp: mset_foldl_step sorted_wrt_rev)

lemma strings_Compare_less [simp]: "strings_Compare a b < 0 \<longleftrightarrow> a < b"
  by (auto simp: strings_Compare_def)

lemma PeerName_cmp_swo: "strict_weak_ordering (\<lambda>a b. strings_Compare (pn a) (pn b))"
  unfolding strict_weak_ordering_def
  by (auto simp: strings_Compare_def split: if_splits)

lemma mset_sortNodes: "SortFunc_contract srt \<Longrightarrow> mset (sortNodes srt pn nodes) = mset nodes"
  by (simp add: SortFunc_contract_def sortNodes_def)

lemma sorted_sortNodes:
  assumes "SortFunc_contract srt"
  shows "sorted (map pn (sortNodes srt pn nodes))"
proof -
  from assms PeerName_cmp_swo[of pn]
  have "sorted_wrt (\<lambda>a b. \<not> strings_Compare (pn b) (pn a) < 0) (sortNodes srt pn nodes)"
    unfolding SortFunc_contract_def sortNodes_def by blast
  then show ?thesis
    by (simp add: sorted_map not_less)
qed

lemma set_sortNodes: "SortFunc_contract srt \<Longrightarrow> set (sortNodes srt pn nodes) = set nodes"
  by (metis mset_sortNodes set_mset_mset)

lemma length_sortNodes: "SortFunc_contract srt \<Longrightarrow> length (sortNodes srt pn nodes) = length nodes"
  by (metis mset_sortNodes size_mset)

lemma sorted_key_unique:
  assumes "mset xs = mset ys" "sorted (map f xs)" "sorted (map f ys)" "inj_on f (set xs)"
  shows "xs = ys"
proof -
  have "mset (map f xs) = mset (map f ys)" using assms(1) by simp
  then have "map f xs = map f ys"
    using assms(2,3) by (metis properties_for_sort)
  moreover have "set ys = set xs" using assms(1) by (metis set_mset_mset)
  ultimately show ?thesis using assms(4) by (simp add: inj_on_map_eq_map)
qed

section \<open>The blocks of GetState\<close>

lemma peers_returns_iff:
  "(\<exists>s'. GetState_peers status peers s = Returns s') \<longleftrightarrow>
     (Status.Self status \<noteq> None \<or> (\<forall>p\<in>set peers. ExitNodeOption p))"
  by (induction peers arbitrary: s) (auto simp: Let_def split: option.splits)

lemma peers_panics_iff:
  "GetState_peers status peers s = Panics NilPointerDereference \<longleftrightarrow>
     (Status.Self status = None \<and> (\<exists>p\<in>set peers. \<not> ExitNodeOption p))"
proof (cases "GetState_peers status peers s")
  case (Returns s')
  with peers_returns_iff[of status peers s] show ?thesis by auto
next
  case (Panics p)
  with peers_returns_iff[of status peers s] show ?thesis by (cases p) auto
qed

lemma peers_ExitNodes:
  "GetState_peers status peers s = Returns s' \<Longrightarrow>
     ExitNodes s' = ExitNodes s @ filter ExitNodeOption peers"
  by (induction peers arbitrary: s) (auto simp: Let_def split: option.splits if_splits)

lemma peers_MyNodes:
  "GetState_peers status peers s = Returns s' \<Longrightarrow>
     MyNodes s' = MyNodes s @ filter (toMyNodes status) peers"
  by (induction peers arbitrary: s) (auto simp: Let_def split: option.splits if_splits)

lemma peers_TaggedNodes:
  "GetState_peers status peers s = Returns s' \<Longrightarrow>
     TaggedNodes s' = TaggedNodes s @ filter (toTaggedNodes status) peers"
  by (induction peers arbitrary: s) (auto simp: Let_def split: option.splits if_splits)

lemma peers_TxBytes:
  "GetState_peers status peers s = Returns s' \<Longrightarrow>
     State.TxBytes s' = State.TxBytes s + sum_list (map PeerStatus.TxBytes peers)"
  by (induction peers arbitrary: s) (auto simp: Let_def split: option.splits if_splits)

lemma peers_RxBytes:
  "GetState_peers status peers s = Returns s' \<Longrightarrow>
     State.RxBytes s' = State.RxBytes s + sum_list (map PeerStatus.RxBytes peers)"
  by (induction peers arbitrary: s) (auto simp: Let_def split: option.splits if_splits)

lemma peers_unchanged:
  "GetState_peers status peers s = Returns s' \<Longrightarrow>
     State.Prefs s' = State.Prefs s \<and> State.BackendState s' = State.BackendState s \<and>
     State.TSVersion s' = State.TSVersion s \<and> State.AuthURL s' = State.AuthURL s \<and>
     State.User s' = State.User s \<and> State.Self s' = State.Self s \<and>
     LockKey s' = LockKey s \<and> IsLockedOut s' = IsLockedOut s \<and>
     OwnedNodeKeys s' = OwnedNodeKeys s \<and> CurrentExitNode s' = CurrentExitNode s \<and>
     CurrentExitNodeName s' = CurrentExitNodeName s"
  by (induction peers arbitrary: s) (auto simp: Let_def split: option.splits if_splits)

lemma map_index_update:
  "map_index (AList.update k v al) k' = (if k' = k then v else map_index al k')"
  by (simp add: map_index_def update_conv')

lemma map_index_None: "map_of al k = None \<Longrightarrow> map_index al k = []"
  by (simp add: map_index_def)

lemma peers_OwnedNodes_index:
  "GetState_peers status peers s = Returns s' \<Longrightarrow>
     map_index (OwnedNodes s') k =
       map_index (OwnedNodes s) k @ filter (\<lambda>p. toOwnedNodes status p \<and> accountName status p = k) peers"
  by (induction peers arbitrary: s) (auto simp: Let_def map_index_update map_index_None split: option.splits if_splits)

lemma peers_OwnedNodes_keys:
  "GetState_peers status peers s = Returns s' \<Longrightarrow>
     fst ` set (OwnedNodes s') =
       fst ` set (OwnedNodes s) \<union> accountName status ` {p \<in> set peers. toOwnedNodes status p}"
  by (induction peers arbitrary: s) (auto simp: Let_def dom_update split: option.splits if_splits)

lemma peers_OwnedNodes_distinct:
  "GetState_peers status peers s = Returns s' \<Longrightarrow> distinct (map fst (OwnedNodes s)) \<Longrightarrow>
     distinct (map fst (OwnedNodes s'))"
  by (induction peers arbitrary: s) (auto simp: Let_def distinct_update split: option.splits if_splits)

lemma sum_update_append:
  "sum_list (map (\<lambda>e. mset (snd e)) (AList.update k (map_index al k @ [p]) al)) =
     (if map_of al k = None then sum_list (map (\<lambda>e. mset (snd e)) al) + {#p#}
      else sum_list (map (\<lambda>e. mset (snd e)) al) + {#p#})"
  by (induction al) (auto simp: map_index_def)

lemma sum_update_empty:
  "map_of al k = None \<Longrightarrow>
   sum_list (map (\<lambda>e. mset (snd e)) (AList.update k [] al)) = sum_list (map (\<lambda>e. mset (snd e)) al)"
  by (induction al) (auto split: if_splits)

lemma peers_OwnedNodes_mset:
  "GetState_peers status peers s = Returns s' \<Longrightarrow>
     sum_list (map (\<lambda>e. mset (snd e)) (OwnedNodes s')) =
       sum_list (map (\<lambda>e. mset (snd e)) (OwnedNodes s)) + mset (filter (toOwnedNodes status) peers)"
  by (induction peers arbitrary: s)
     (auto simp: Let_def sum_update_append sum_update_empty split: option.splits if_splits)



lemma GetState_owned_Cons:
  "GetState_owned srt pn (e # rest) s =
     GetState_owned srt pn rest
       (s\<lparr>OwnedNodes := AList.update (fst e) (sortNodes srt pn (snd e)) (OwnedNodes s),
          OwnedNodeKeys := OwnedNodeKeys s @ [fst e]\<rparr>)"
  by (cases e) simp

lemma owned_unchanged [simp]:
  "State.Prefs (GetState_owned srt pn al s) = State.Prefs s \<and>
   State.BackendState (GetState_owned srt pn al s) = State.BackendState s \<and>
   State.TSVersion (GetState_owned srt pn al s) = State.TSVersion s \<and>
   State.AuthURL (GetState_owned srt pn al s) = State.AuthURL s \<and>
   State.User (GetState_owned srt pn al s) = State.User s \<and>
   State.Self (GetState_owned srt pn al s) = State.Self s \<and>
   LockKey (GetState_owned srt pn al s) = LockKey s \<and>
   IsLockedOut (GetState_owned srt pn al s) = IsLockedOut s \<and>
   ExitNodes (GetState_owned srt pn al s) = ExitNodes s \<and>
   MyNodes (GetState_owned srt pn al s) = MyNodes s \<and>
   TaggedNodes (GetState_owned srt pn al s) = TaggedNodes s \<and>
   CurrentExitNode (GetState_owned srt pn al s) = CurrentExitNode s \<and>
   CurrentExitNodeName (GetState_owned srt pn al s) = CurrentExitNodeName s \<and>
   State.RxBytes (GetState_owned srt pn al s) = State.RxBytes s \<and>
   State.TxBytes (GetState_owned srt pn al s) = State.TxBytes s"
  by (induction al arbitrary: s) (simp_all add: GetState_owned_Cons del: GetState_owned.simps(2))

lemma owned_OwnedNodeKeys [simp]:
  "OwnedNodeKeys (GetState_owned srt pn al s) = OwnedNodeKeys s @ map fst al"
  by (induction al arbitrary: s) (simp_all add: GetState_owned_Cons del: GetState_owned.simps(2))

lemma update_middle:
  "k \<notin> fst ` set pre \<Longrightarrow> AList.update k v' (pre @ (k, v) # rest) = pre @ (k, v') # rest"
  by (induction pre) auto

lemma owned_OwnedNodes_gen:
  "distinct (map fst (pre @ rest)) \<Longrightarrow> OwnedNodes s = pre @ rest \<Longrightarrow>
     OwnedNodes (GetState_owned srt pn rest s) =
       pre @ map (\<lambda>e. (fst e, sortNodes srt pn (snd e))) rest"
proof (induction rest arbitrary: pre s)
  case Nil
  then show ?case by simp
next
  case (Cons e rest)
  obtain k v where e: "e = (k, v)" by (cases e)
  let ?s = "s\<lparr>OwnedNodes := AList.update k (sortNodes srt pn v) (OwnedNodes s),
              OwnedNodeKeys := OwnedNodeKeys s @ [k]\<rparr>"
  from Cons.prems e have notin: "k \<notin> fst ` set pre" by auto
  have upd: "OwnedNodes ?s = (pre @ [(k, sortNodes srt pn v)]) @ rest"
    using Cons.prems(2) e notin by (simp add: update_middle)
  have dist: "distinct (map fst ((pre @ [(k, sortNodes srt pn v)]) @ rest))"
    using Cons.prems(1) e by auto
  from Cons.IH[OF dist upd] show ?case by (simp add: e)
qed

lemma owned_OwnedNodes:
  "distinct (map fst (OwnedNodes s)) \<Longrightarrow>
     OwnedNodes (GetState_owned srt pn (OwnedNodes s) s) =
       map (\<lambda>e. (fst e, sortNodes srt pn (snd e))) (OwnedNodes s)"
  using owned_OwnedNodes_gen[of "[]" "OwnedNodes s" s srt pn] by simp

lemma exit_unchanged [simp]:
  "State.Prefs (GetState_exitName pn i ps s) = State.Prefs s \<and>
   State.BackendState (GetState_exitName pn i ps s) = State.BackendState s \<and>
   State.TSVersion (GetState_exitName pn i ps s) = State.TSVersion s \<and>
   State.AuthURL (GetState_exitName pn i ps s) = State.AuthURL s \<and>
   State.User (GetState_exitName pn i ps s) = State.User s \<and>
   State.Self (GetState_exitName pn i ps s) = State.Self s \<and>
   LockKey (GetState_exitName pn i ps s) = LockKey s \<and>
   IsLockedOut (GetState_exitName pn i ps s) = IsLockedOut s \<and>
   ExitNodes (GetState_exitName pn i ps s) = ExitNodes s \<and>
   MyNodes (GetState_exitName pn i ps s) = MyNodes s \<and>
   TaggedNodes (GetState_exitName pn i ps s) = TaggedNodes s \<and>
   OwnedNodeKeys (GetState_exitName pn i ps s) = OwnedNodeKeys s \<and>
   OwnedNodes (GetState_exitName pn i ps s) = OwnedNodes s \<and>
   CurrentExitNode (GetState_exitName pn i ps s) = CurrentExitNode s \<and>
   State.RxBytes (GetState_exitName pn i ps s) = State.RxBytes s \<and>
   State.TxBytes (GetState_exitName pn i ps s) = State.TxBytes s"
  by (induction ps) simp_all

lemma exit_CurrentExitNodeName:
  "CurrentExitNodeName (GetState_exitName pn i ps s) =
     (case find (\<lambda>p. PeerStatus.ID p = i) ps of None \<Rightarrow> CurrentExitNodeName s | Some p \<Rightarrow> pn p)"
  by (induction ps) simp_all

lemma IndexByte_ge: "- 1 \<le> IndexByte s c"
  by (induction s) (auto simp: Let_def)

lemma IndexByte_absent: "IndexByte s c = - 1 \<longleftrightarrow> c \<notin> set s"
proof (induction s)
  case Nil
  then show ?case by simp
next
  case (Cons x s)
  from IndexByte_ge[of s c] have "IndexByte s c + 1 \<noteq> - 1" by arith
  with Cons show ?case by (simp add: Let_def)
qed

lemma IndexByte_present:
  "c \<in> set s \<Longrightarrow> IndexByte s c = int (length (takeWhile (\<lambda>x. x \<noteq> c) s))"
  by (induction s) (auto simp: Let_def IndexByte_absent)

lemma take_IndexByte:
  "c \<in> set s \<Longrightarrow> take (nat (IndexByte s c)) s = takeWhile (\<lambda>x. x \<noteq> c) s"
  using takeWhile_eq_take[of "\<lambda>x. x \<noteq> c" s] by (simp only: IndexByte_present nat_int)



lemma GetState_peers_eq:
  assumes "GetState_peers status peers s = Returns s'"
  shows "s' = s\<lparr>
      State.TxBytes := State.TxBytes s + sum_list (map PeerStatus.TxBytes peers),
      State.RxBytes := State.RxBytes s + sum_list (map PeerStatus.RxBytes peers),
      ExitNodes := ExitNodes s @ filter ExitNodeOption peers,
      MyNodes := MyNodes s @ filter (toMyNodes status) peers,
      TaggedNodes := TaggedNodes s @ filter (toTaggedNodes status) peers,
      OwnedNodes := OwnedNodes s'\<rparr>"
proof (rule State.equality)
qed (simp_all add: peers_unchanged[OF assms] peers_ExitNodes[OF assms] peers_MyNodes[OF assms]
    peers_TaggedNodes[OF assms] peers_TxBytes[OF assms] peers_RxBytes[OF assms])

lemma GetState_owned_eq_gen:
  "distinct (map fst (pre @ rest)) \<Longrightarrow> OwnedNodes s = pre @ rest \<Longrightarrow>
     GetState_owned srt pn rest s =
       s\<lparr>OwnedNodes := pre @ map (\<lambda>e. (fst e, sortNodes srt pn (snd e))) rest,
         OwnedNodeKeys := OwnedNodeKeys s @ map fst rest\<rparr>"
proof (rule State.equality)
qed (simp_all add: owned_OwnedNodes_gen[of pre rest s srt pn])

lemma GetState_owned_eq:
  assumes "distinct (map fst al)" and "OwnedNodes s = al"
  shows "GetState_owned srt pn al s =
       s\<lparr>OwnedNodes := map (\<lambda>e. (fst e, sortNodes srt pn (snd e))) al,
         OwnedNodeKeys := OwnedNodeKeys s @ map fst al\<rparr>"
proof -
  have d: "distinct (map fst ([] @ al))" using assms(1) by simp
  have e: "OwnedNodes s = [] @ al" using assms(2) by simp
  show ?thesis
    using GetState_owned_eq_gen[OF d e, of srt pn] by (simp only: append_Nil)
qed

lemma GetState_sort_eq:
  assumes "distinct (map fst (OwnedNodes s))"
  shows "GetState_sort srt pn s =
       s\<lparr>ExitNodes := sortNodes srt pn (ExitNodes s),
         MyNodes := sortNodes srt pn (MyNodes s),
         TaggedNodes := sortNodes srt pn (TaggedNodes s),
         OwnedNodes := map (\<lambda>e. (fst e, sortNodes srt pn (snd e))) (OwnedNodes s),
         OwnedNodeKeys := sort (OwnedNodeKeys s @ map fst (OwnedNodes s))\<rparr>"
proof -
  let ?s3 = "s\<lparr>ExitNodes := sortNodes srt pn (ExitNodes s),
         MyNodes := sortNodes srt pn (MyNodes s),
         TaggedNodes := sortNodes srt pn (TaggedNodes s)\<rparr>"
  have o: "OwnedNodes ?s3 = OwnedNodes s" by simp
  have "GetState_owned srt pn (OwnedNodes s) ?s3 =
     ?s3\<lparr>OwnedNodes := map (\<lambda>e. (fst e, sortNodes srt pn (snd e))) (OwnedNodes s),
         OwnedNodeKeys := OwnedNodeKeys ?s3 @ map fst (OwnedNodes s)\<rparr>"
    by (rule GetState_owned_eq[OF assms o])
  then show ?thesis
    by (simp add: GetState_sort_def Let_def)
qed

lemma GetState_version_eq:
  "GetState_version s =
     s\<lparr>State.TSVersion := takeWhile (\<lambda>c. c \<noteq> CHR ''-'') (State.TSVersion s)\<rparr>"
proof (cases "CHR ''-'' \<in> set (State.TSVersion s)")
  case True
  then show ?thesis
    by (simp add: GetState_version_def Let_def IndexByte_absent take_IndexByte)
next
  case False
  then have tw: "takeWhile (\<lambda>c. c \<noteq> CHR ''-'') (State.TSVersion s) = State.TSVersion s"
    by (auto simp: takeWhile_eq_all_conv)
  have "s\<lparr>State.TSVersion := takeWhile (\<lambda>c. c \<noteq> CHR ''-'') (State.TSVersion s)\<rparr>
      = s\<lparr>State.TSVersion := State.TSVersion s\<rparr>"
    by (simp only: tw)
  also have "\<dots> = s" by simp
  finally show ?thesis using False
    by (simp add: GetState_version_def Let_def IndexByte_absent)
qed

lemma GetState_lock_eq:
  "GetState_lock lock s =
     s\<lparr>LockKey := (if Enabled lock \<and> NodeKey lock \<noteq> None \<and> \<not> IsZero (NetworkLockStatus.PublicKey lock)
                    then Some (NetworkLockStatus.PublicKey lock) else LockKey s),
       IsLockedOut := (if Enabled lock \<and> NodeKey lock \<noteq> None \<and> \<not> IsZero (NetworkLockStatus.PublicKey lock)
                         \<and> \<not> NodeKeySigned lock \<and> State.BackendState s = Running
                       then True else IsLockedOut s)\<rparr>"
proof (rule State.equality)
qed (auto simp: GetState_lock_def Let_def)

lemma GetState_exitName_eq:
  "GetState_exitName pn i ps s =
     s\<lparr>CurrentExitNodeName :=
        (case find (\<lambda>p. PeerStatus.ID p = i) ps of None \<Rightarrow> CurrentExitNodeName s | Some p \<Rightarrow> pn p)\<rparr>"
proof (rule State.equality)
qed (simp_all add: exit_CurrentExitNodeName)

lemma GetState_exitNode_eq:
  "GetState_exitNode pn status s =
     s\<lparr>CurrentExitNode := (case Status.ExitNodeStatus status of None \<Rightarrow> CurrentExitNode s
          | Some ens \<Rightarrow> Some (ExitNodeStatus.ID ens)),
       CurrentExitNodeName := (case Status.ExitNodeStatus status of None \<Rightarrow> CurrentExitNodeName s
          | Some ens \<Rightarrow> (case find (\<lambda>p. PeerStatus.ID p = ExitNodeStatus.ID ens) (ExitNodes s) of
                None \<Rightarrow> CurrentExitNodeName s | Some p \<Rightarrow> pn p))\<rparr>"
proof (cases "Status.ExitNodeStatus status")
  case None
  then show ?thesis by (simp add: GetState_exitNode_def)
next
  case (Some ens)
  then show ?thesis
    by (simp add: GetState_exitNode_def Let_def GetState_exitName_eq cong: option.case_cong)
qed

lemma GetState_user_eq:
  "GetState_user status s =
     s\<lparr>State.User := (case Status.Self status of None \<Rightarrow> State.User s
        | Some self \<Rightarrow> Some (case Status.User status (PeerStatus.UserID self) of
                                None \<Rightarrow> UserProfile_zero | Some u \<Rightarrow> u))\<rparr>"
  by (cases "Status.Self status") (simp_all add: GetState_user_def Let_def)

lemma GetState_ReturnsE:
  assumes "GetState srt pn (Inr status) (Inr prefs) (Inr lock) = Returns (st, None)"
  obtains bs s1 where
    "NewIPNStateFromString (Status.BackendState status) = (bs, None)"
    "GetState_peers status (Status.Peer status)
       (State_zero\<lparr>State.Prefs := Some prefs,
                State.AuthURL := Status.AuthURL status,
                State.BackendState := bs,
                State.TSVersion := Status.Version status,
                State.Self := Status.Self status,
                State.OwnedNodes := []\<rparr>) = Returns s1"
    "st = GetState_exitNode pn status (GetState_lock lock (GetState_user status
            (GetState_version (GetState_sort srt pn s1))))"
proof -
  obtain bs e where n: "NewIPNStateFromString (Status.BackendState status) = (bs, e)"
    by (cases "NewIPNStateFromString (Status.BackendState status)")
  show thesis
  proof (cases e)
    case (Some err)
    with assms n show thesis by (simp add: GetState_def)
  next
    case None
    let ?init = "State_zero\<lparr>State.Prefs := Some prefs,
                State.AuthURL := Status.AuthURL status,
                State.BackendState := bs,
                State.TSVersion := Status.Version status,
                State.Self := Status.Self status,
                State.OwnedNodes := []\<rparr>"
    show thesis
    proof (cases "GetState_peers status (Status.Peer status) ?init")
      case (Panics p)
      with assms n None show thesis by (simp add: GetState_def)
    next
      case (Returns s1)
      with assms n None
      have "st = GetState_exitNode pn status (GetState_lock lock (GetState_user status
            (GetState_version (GetState_sort srt pn s1))))"
        by (simp add: GetState_def Let_def)
      with n None Returns that show thesis by blast
    qed
  qed
qed


lemma GetState_Returns_State:
  assumes "GetState srt pn (Inr status) (Inr prefs) (Inr lock) = Returns (st, None)"
  obtains bs owned where
    "NewIPNStateFromString (Status.BackendState status) = (bs, None)"
    "distinct (map fst owned)"
    "\<And>k. map_index owned k =
        filter (\<lambda>p. toOwnedNodes status p \<and> accountName status p = k) (Status.Peer status)"
    "fst ` set owned = accountName status ` {p \<in> set (Status.Peer status). toOwnedNodes status p}"
    "sum_list (map (\<lambda>e. mset (snd e)) owned) = mset (filter (toOwnedNodes status) (Status.Peer status))"
    "st = \<lparr> State.Prefs = Some prefs,
            State.BackendState = bs,
            State.TSVersion = takeWhile (\<lambda>c. c \<noteq> CHR ''-'') (Status.Version status),
            State.AuthURL = Status.AuthURL status,
            State.User = (case Status.Self status of None \<Rightarrow> None
               | Some self \<Rightarrow> Some (case Status.User status (PeerStatus.UserID self) of
                                       None \<Rightarrow> UserProfile_zero | Some u \<Rightarrow> u)),
            State.Self = Status.Self status,
            State.LockKey = (if Enabled lock \<and> NodeKey lock \<noteq> None
                                \<and> \<not> IsZero (NetworkLockStatus.PublicKey lock)
                             then Some (NetworkLockStatus.PublicKey lock) else None),
            State.IsLockedOut = (Enabled lock \<and> NodeKey lock \<noteq> None
                                \<and> \<not> IsZero (NetworkLockStatus.PublicKey lock)
                                \<and> \<not> NodeKeySigned lock \<and> bs = Running),
            State.ExitNodes = sortNodes srt pn (filter ExitNodeOption (Status.Peer status)),
            State.MyNodes = sortNodes srt pn (filter (toMyNodes status) (Status.Peer status)),
            State.TaggedNodes = sortNodes srt pn (filter (toTaggedNodes status) (Status.Peer status)),
            State.OwnedNodeKeys = sort (map fst owned),
            State.OwnedNodes = map (\<lambda>e. (fst e, sortNodes srt pn (snd e))) owned,
            State.CurrentExitNode = map_option ExitNodeStatus.ID (Status.ExitNodeStatus status),
            State.CurrentExitNodeName = (case Status.ExitNodeStatus status of None \<Rightarrow> []
               | Some ens \<Rightarrow>
                  (case find (\<lambda>p. PeerStatus.ID p = ExitNodeStatus.ID ens)
                          (sortNodes srt pn (filter ExitNodeOption (Status.Peer status))) of
                     None \<Rightarrow> [] | Some p \<Rightarrow> pn p)),
            State.RxBytes = sum_list (map PeerStatus.RxBytes (Status.Peer status)),
            State.TxBytes = sum_list (map PeerStatus.TxBytes (Status.Peer status)) \<rparr>"
proof -
  from assms obtain bs s1 where
    n: "NewIPNStateFromString (Status.BackendState status) = (bs, None)" and
    p: "GetState_peers status (Status.Peer status)
       (State_zero\<lparr>State.Prefs := Some prefs,
                State.AuthURL := Status.AuthURL status,
                State.BackendState := bs,
                State.TSVersion := Status.Version status,
                State.Self := Status.Self status,
                State.OwnedNodes := []\<rparr>) = Returns s1" and
    st: "st = GetState_exitNode pn status (GetState_lock lock (GetState_user status
            (GetState_version (GetState_sort srt pn s1))))"
    by (rule GetState_ReturnsE)
  have d: "distinct (map fst (OwnedNodes s1))"
    using peers_OwnedNodes_distinct[OF p] by simp
  have i: "map_index (OwnedNodes s1) k =
        filter (\<lambda>p. toOwnedNodes status p \<and> accountName status p = k) (Status.Peer status)" for k
    using peers_OwnedNodes_index[OF p, of k] by (simp add: map_index_def)
  have k: "fst ` set (OwnedNodes s1) =
      accountName status ` {p \<in> set (Status.Peer status). toOwnedNodes status p}"
    using peers_OwnedNodes_keys[OF p] by simp
  have m: "sum_list (map (\<lambda>e. mset (snd e)) (OwnedNodes s1)) =
      mset (filter (toOwnedNodes status) (Status.Peer status))"
    using peers_OwnedNodes_mset[OF p] by simp
  have srt: "GetState_sort srt pn s1 = s1\<lparr>ExitNodes := sortNodes srt pn (ExitNodes s1),
         MyNodes := sortNodes srt pn (MyNodes s1),
         TaggedNodes := sortNodes srt pn (TaggedNodes s1),
         OwnedNodes := map (\<lambda>e. (fst e, sortNodes srt pn (snd e))) (OwnedNodes s1),
         OwnedNodeKeys := sort (OwnedNodeKeys s1 @ map fst (OwnedNodes s1))\<rparr>"
    by (rule GetState_sort_eq[OF d])
  have "st = \<lparr> State.Prefs = Some prefs,
            State.BackendState = bs,
            State.TSVersion = takeWhile (\<lambda>c. c \<noteq> CHR ''-'') (Status.Version status),
            State.AuthURL = Status.AuthURL status,
            State.User = (case Status.Self status of None \<Rightarrow> None
               | Some self \<Rightarrow> Some (case Status.User status (PeerStatus.UserID self) of
                                       None \<Rightarrow> UserProfile_zero | Some u \<Rightarrow> u)),
            State.Self = Status.Self status,
            State.LockKey = (if Enabled lock \<and> NodeKey lock \<noteq> None
                                \<and> \<not> IsZero (NetworkLockStatus.PublicKey lock)
                             then Some (NetworkLockStatus.PublicKey lock) else None),
            State.IsLockedOut = (Enabled lock \<and> NodeKey lock \<noteq> None
                                \<and> \<not> IsZero (NetworkLockStatus.PublicKey lock)
                                \<and> \<not> NodeKeySigned lock \<and> bs = Running),
            State.ExitNodes = sortNodes srt pn (filter ExitNodeOption (Status.Peer status)),
            State.MyNodes = sortNodes srt pn (filter (toMyNodes status) (Status.Peer status)),
            State.TaggedNodes = sortNodes srt pn (filter (toTaggedNodes status) (Status.Peer status)),
            State.OwnedNodeKeys = sort (map fst (OwnedNodes s1)),
            State.OwnedNodes = map (\<lambda>e. (fst e, sortNodes srt pn (snd e))) (OwnedNodes s1),
            State.CurrentExitNode = map_option ExitNodeStatus.ID (Status.ExitNodeStatus status),
            State.CurrentExitNodeName = (case Status.ExitNodeStatus status of None \<Rightarrow> []
               | Some ens \<Rightarrow>
                  (case find (\<lambda>p. PeerStatus.ID p = ExitNodeStatus.ID ens)
                          (sortNodes srt pn (filter ExitNodeOption (Status.Peer status))) of
                     None \<Rightarrow> [] | Some p \<Rightarrow> pn p)),
            State.RxBytes = sum_list (map PeerStatus.RxBytes (Status.Peer status)),
            State.TxBytes = sum_list (map PeerStatus.TxBytes (Status.Peer status)) \<rparr>"
    unfolding st srt GetState_version_eq GetState_user_eq GetState_lock_eq GetState_exitNode_eq
  proof (rule State.equality)
  qed (simp_all add: peers_unchanged[OF p] peers_ExitNodes[OF p] peers_MyNodes[OF p]
        peers_TaggedNodes[OF p] peers_TxBytes[OF p] peers_RxBytes[OF p] State_zero_def map_option_case
        cong: option.case_cong)
  with n d i k m that show thesis by blast
qed

lemma GetState_Returns_iff:
  assumes "NewIPNStateFromString (Status.BackendState status) = (bs, None)"
  shows "(\<exists>st. GetState srt pn (Inr status) (Inr prefs) (Inr lock) = Returns (st, None)) \<longleftrightarrow>
     (Status.Self status \<noteq> None \<or> (\<forall>p\<in>set (Status.Peer status). ExitNodeOption p))"
proof -
  let ?init = "State_zero\<lparr>State.Prefs := Some prefs,
                State.AuthURL := Status.AuthURL status,
                State.BackendState := bs,
                State.TSVersion := Status.Version status,
                State.Self := Status.Self status,
                State.OwnedNodes := []\<rparr>"
  have "(\<exists>st. GetState srt pn (Inr status) (Inr prefs) (Inr lock) = Returns (st, None)) \<longleftrightarrow>
        (\<exists>s1. GetState_peers status (Status.Peer status) ?init = Returns s1)"
    using assms by (cases "GetState_peers status (Status.Peer status) ?init")
      (simp_all add: GetState_def Let_def)
  then show ?thesis by (simp only: peers_returns_iff)
qed

lemma GetState_Panics_iff:
  assumes "NewIPNStateFromString (Status.BackendState status) = (bs, None)"
  shows "GetState srt pn (Inr status) (Inr prefs) (Inr lock) = Panics NilPointerDereference \<longleftrightarrow>
     (Status.Self status = None \<and> (\<exists>p\<in>set (Status.Peer status). \<not> ExitNodeOption p))"
proof -
  let ?init = "State_zero\<lparr>State.Prefs := Some prefs,
                State.AuthURL := Status.AuthURL status,
                State.BackendState := bs,
                State.TSVersion := Status.Version status,
                State.Self := Status.Self status,
                State.OwnedNodes := []\<rparr>"
  have "GetState srt pn (Inr status) (Inr prefs) (Inr lock) = Panics NilPointerDereference \<longleftrightarrow>
        GetState_peers status (Status.Peer status) ?init = Panics NilPointerDereference"
    using assms by (cases "GetState_peers status (Status.Peer status) ?init")
      (simp_all add: GetState_def Let_def)
  then show ?thesis by (simp only: peers_panics_iff)
qed

lemma mset_four_branches:
  "mset (filter ExitNodeOption ps) + mset (filter (toMyNodes status) ps) +
   mset (filter (toTaggedNodes status) ps) + mset (filter (toOwnedNodes status) ps) = mset ps"
  by (induction ps) auto

lemma size_sum_list_mset:
  "size (sum_list (map (\<lambda>e. mset (snd e)) al)) = sum_list (map (\<lambda>e. length (snd e)) al)"
  by (induction al) auto

lemma sum_list_mset_map:
  "sum_list (map (\<lambda>e. mset (snd e)) (map (\<lambda>e. (fst e, f (snd e))) al)) =
   sum_list (map (\<lambda>e. mset (f (snd e))) al)"
  by (induction al) auto

lemma GetState_fields:
  assumes "GetState srt pn (Inr status) (Inr prefs) (Inr lock) = Returns (st, None)"
  shows "NewIPNStateFromString (Status.BackendState status) = (State.BackendState st, None)
    \<and> State.Prefs st = Some prefs
    \<and> State.TSVersion st = takeWhile (\<lambda>c. c \<noteq> CHR ''-'') (Status.Version status)
    \<and> State.AuthURL st = Status.AuthURL status
    \<and> State.User st = (case Status.Self status of None \<Rightarrow> None
               | Some self \<Rightarrow> Some (case Status.User status (PeerStatus.UserID self) of
                                       None \<Rightarrow> UserProfile_zero | Some u \<Rightarrow> u))
    \<and> State.Self st = Status.Self status
    \<and> State.LockKey st = (if Enabled lock \<and> NodeKey lock \<noteq> None
                                \<and> \<not> IsZero (NetworkLockStatus.PublicKey lock)
                             then Some (NetworkLockStatus.PublicKey lock) else None)
    \<and> State.IsLockedOut st = (Enabled lock \<and> NodeKey lock \<noteq> None
                                \<and> \<not> IsZero (NetworkLockStatus.PublicKey lock)
                                \<and> \<not> NodeKeySigned lock \<and> State.BackendState st = Running)
    \<and> State.ExitNodes st = sortNodes srt pn (filter ExitNodeOption (Status.Peer status))
    \<and> State.MyNodes st = sortNodes srt pn (filter (toMyNodes status) (Status.Peer status))
    \<and> State.TaggedNodes st = sortNodes srt pn (filter (toTaggedNodes status) (Status.Peer status))
    \<and> State.CurrentExitNode st = map_option ExitNodeStatus.ID (Status.ExitNodeStatus status)
    \<and> State.CurrentExitNodeName st = (case Status.ExitNodeStatus status of None \<Rightarrow> []
               | Some ens \<Rightarrow>
                  (case find (\<lambda>p. PeerStatus.ID p = ExitNodeStatus.ID ens) (State.ExitNodes st) of
                     None \<Rightarrow> [] | Some p \<Rightarrow> pn p))
    \<and> State.RxBytes st = sum_list (map PeerStatus.RxBytes (Status.Peer status))
    \<and> State.TxBytes st = sum_list (map PeerStatus.TxBytes (Status.Peer status))"
proof (rule GetState_Returns_State[OF assms], goal_cases)
  case (1 bs owned)
  show ?case unfolding 1(6) using 1(1) by (simp cong: option.case_cong)
qed

lemma strings_Compare_le: "strings_Compare a b \<le> 0 \<longleftrightarrow> a \<le> b"
  by (auto simp: strings_Compare_def)

lemma sorted_wrt_sortNodes:
  assumes "SortFunc_contract srt"
  shows "sorted_wrt (\<lambda>a b. strings_Compare (pn a) (pn b) \<le> 0) (sortNodes srt pn nodes)"
  using sorted_sortNodes[OF assms, of pn nodes] by (simp add: sorted_map strings_Compare_le)

lemma map_of_map_values:
  "map_of (map (\<lambda>e. (fst e, f (snd e))) al) k = map_option f (map_of al k)"
  by (induction al) auto

lemma GetState_OwnedNodes_map_of:
  assumes "GetState srt pn (Inr status) (Inr prefs) (Inr lock) = Returns (st, None)"
  shows "map_of (OwnedNodes st) k =
     (if k \<in> accountName status ` {p \<in> set (Status.Peer status). toOwnedNodes status p}
      then Some (sortNodes srt pn
        (filter (\<lambda>p. toOwnedNodes status p \<and> accountName status p = k) (Status.Peer status)))
      else None)"
proof (rule GetState_Returns_State[OF assms], goal_cases)
  case (1 bs owned)
  have o: "OwnedNodes st = map (\<lambda>e. (fst e, sortNodes srt pn (snd e))) owned"
    unfolding 1(6) by simp
  show ?case
  proof (cases "map_of owned k")
    case None
    then have "k \<notin> fst ` set owned" by (simp add: map_of_eq_None_iff)
    with None show ?thesis unfolding o map_of_map_values 1(4)[symmetric] by simp
  next
    case (Some v)
    then have "k \<in> fst ` set owned" by (metis map_of_eq_None_iff option.distinct(1))
    moreover from Some have "map_index owned k = v" by (simp add: map_index_def)
    ultimately show ?thesis
      using Some 1(3)[of k] unfolding o map_of_map_values 1(4)[symmetric] by simp
  qed
qed

lemma GetState_OwnedNodeKeys:
  assumes "GetState srt pn (Inr status) (Inr prefs) (Inr lock) = Returns (st, None)"
  shows "sorted (OwnedNodeKeys st) \<and> distinct (OwnedNodeKeys st) \<and>
     set (OwnedNodeKeys st) =
       accountName status ` {p \<in> set (Status.Peer status). toOwnedNodes status p}"
proof (rule GetState_Returns_State[OF assms], goal_cases)
  case (1 bs owned)
  have o: "OwnedNodeKeys st = sort (map fst owned)"
    unfolding 1(6) by simp
  from 1(2) 1(4)[symmetric] show ?case unfolding o by simp
qed

lemma GetState_OwnedNodes_mset:
  assumes "SortFunc_contract srt"
    and "GetState srt pn (Inr status) (Inr prefs) (Inr lock) = Returns (st, None)"
  shows "sum_list (map (\<lambda>e. mset (snd e)) (OwnedNodes st)) =
       mset (filter (toOwnedNodes status) (Status.Peer status))
     \<and> distinct (map fst (OwnedNodes st))"
proof (rule GetState_Returns_State[OF assms(2)], goal_cases)
  case (1 bs owned)
  have o: "OwnedNodes st = map (\<lambda>e. (fst e, sortNodes srt pn (snd e))) owned"
    unfolding 1(6) by simp
  have "sum_list (map (\<lambda>e. mset (snd e)) (OwnedNodes st)) =
      mset (filter (toOwnedNodes status) (Status.Peer status))"
    unfolding o sum_list_mset_map by (simp add: mset_sortNodes[OF assms(1)] 1(5))
  moreover have "distinct (map fst (OwnedNodes st))"
    using 1(2) unfolding o by (simp add: comp_def)
  ultimately show ?case by blast
qed

lemma dom_GetState_OwnedNodes:
  assumes "GetState srt pn (Inr status) (Inr prefs) (Inr lock) = Returns (st, None)"
  shows "dom (map_of (OwnedNodes st)) =
       accountName status ` {p \<in> set (Status.Peer status). toOwnedNodes status p}"
  unfolding dom_def GetState_OwnedNodes_map_of[OF assms] by auto

lemma sint_sum_list_64:
  "sint (sum_list ws :: 64 word) = signed_take_bit 63 (sum_list (map sint ws))"
proof -
  have "sum_list ws = (word_of_int (sum_list (map sint ws)) :: 64 word)"
    by (induction ws) simp_all
  then have "sint (sum_list ws) = sint (word_of_int (sum_list (map sint ws)) :: 64 word)"
    by simp
  then show ?thesis by (simp add: sint_sbintrunc')
qed

lemma sorted_distinct_sort_unique:
  "sorted xs \<Longrightarrow> distinct xs \<Longrightarrow> xs = sorted_list_of_set (set xs)"
  by (simp add: sorted_list_of_set.idem_if_sorted_distinct)

lemma sortNodes_perm_unique:
  assumes "SortFunc_contract srt" and "mset xs' = mset xs"
    and "inj_on pn (set (sortNodes srt pn xs))"
  shows "sortNodes srt pn xs' = sortNodes srt pn xs"
proof -
  have "mset (sortNodes srt pn xs) = mset (sortNodes srt pn xs')"
    by (simp only: mset_sortNodes[OF assms(1)] assms(2))
  from sorted_key_unique[OF this sorted_sortNodes[OF assms(1)] sorted_sortNodes[OF assms(1)] assms(3)]
  show ?thesis by simp
qed

lemma accountName_Peer_update [simp]:
  "accountName (status\<lparr>Peer := ps\<rparr>) p = accountName status p"
  by (simp add: accountName_def)

lemma sorted_distinct_set_eq:
  "sorted xs \<Longrightarrow> distinct xs \<Longrightarrow> sorted ys \<Longrightarrow> distinct ys \<Longrightarrow> set xs = set ys \<Longrightarrow>
     xs = (ys :: string list)"
  by (rule sorted_distinct_set_unique)

lemma sortNodes_perm_names:
  assumes "SortFunc_contract srt" and "mset xs' = mset xs"
  shows "mset (sortNodes srt pn xs') = mset (sortNodes srt pn xs)
       \<and> map pn (sortNodes srt pn xs') = map pn (sortNodes srt pn xs)"
proof -
  have m: "mset (sortNodes srt pn xs') = mset (sortNodes srt pn xs)"
    by (simp only: mset_sortNodes[OF assms(1)] assms(2))
  then have "mset (map pn (sortNodes srt pn xs')) = mset (map pn (sortNodes srt pn xs))"
    by simp
  from properties_for_sort[OF this sorted_sortNodes[OF assms(1)]]
    properties_for_sort[OF refl sorted_sortNodes[OF assms(1), of pn xs]]
  have "map pn (sortNodes srt pn xs') = map pn (sortNodes srt pn xs)"
    by simp
  with m show ?thesis by blast
qed

section \<open>The claims\<close>

text \<open>
  C1. If \<open>GetState\<close> returns a state, the four kinds of output sequences together hold
  every peer of the input exactly as often as the input does: their multisets add up
  to the multiset of the input peers, their lengths add up to the number of input
  peers, and \<open>OwnedNodes\<close> has one bucket per key.
\<close>

theorem C1_partition:
  assumes "SortFunc_contract srt"
    and "GetState srt pn (Inr status) (Inr prefs) (Inr lock) = Returns (st, None)"
  shows "mset (ExitNodes st) + mset (MyNodes st) + mset (TaggedNodes st) +
           sum_list (map (\<lambda>e. mset (snd e)) (OwnedNodes st)) = mset (Status.Peer status)
       \<and> length (ExitNodes st) + length (MyNodes st) + length (TaggedNodes st) +
           sum_list (map (\<lambda>e. length (snd e)) (OwnedNodes st)) = length (Status.Peer status)
       \<and> distinct (map fst (OwnedNodes st))"
proof -
  from assms(2) obtain bs owned where
    d: "distinct (map fst owned)" and
    m: "sum_list (map (\<lambda>e. mset (snd e)) owned) =
          mset (filter (toOwnedNodes status) (Status.Peer status))" and
    e: "ExitNodes st = sortNodes srt pn (filter ExitNodeOption (Status.Peer status))" and
    my: "MyNodes st = sortNodes srt pn (filter (toMyNodes status) (Status.Peer status))" and
    t: "TaggedNodes st = sortNodes srt pn (filter (toTaggedNodes status) (Status.Peer status))" and
    o: "OwnedNodes st = map (\<lambda>e. (fst e, sortNodes srt pn (snd e))) owned"
    by (rule GetState_Returns_State) simp
  have om: "sum_list (map (\<lambda>e. mset (snd e)) (OwnedNodes st)) =
      mset (filter (toOwnedNodes status) (Status.Peer status))"
    unfolding o sum_list_mset_map by (simp add: mset_sortNodes[OF assms(1)] m)
  have 1: "mset (ExitNodes st) + mset (MyNodes st) + mset (TaggedNodes st) +
           sum_list (map (\<lambda>e. mset (snd e)) (OwnedNodes st)) = mset (Status.Peer status)"
    unfolding om unfolding e my t mset_sortNodes[OF assms(1)] by (rule mset_four_branches)
  have "size (mset (ExitNodes st) + mset (MyNodes st) + mset (TaggedNodes st) +
           sum_list (map (\<lambda>e. mset (snd e)) (OwnedNodes st))) = size (mset (Status.Peer status))"
    by (simp only: 1)
  then have 2: "length (ExitNodes st) + length (MyNodes st) + length (TaggedNodes st) +
           sum_list (map (\<lambda>e. length (snd e)) (OwnedNodes st)) = length (Status.Peer status)"
    by (simp add: size_sum_list_mset)
  have 3: "distinct (map fst (OwnedNodes st))"
    using d unfolding o by (simp add: comp_def)
  from 1 2 3 show ?thesis by blast
qed

theorem C1_partition_witness:
  "SortFunc_contract (insertionSortCmpFunc :: (PeerStatus \<Rightarrow> PeerStatus \<Rightarrow> int) \<Rightarrow> _)
   \<and> GetState insertionSortCmpFunc HostName (Inr ex_status) (Inr ex_prefs) (Inr ex_lock) =
        Returns (ex_state, None)
   \<and> mset (ExitNodes ex_state) + mset (MyNodes ex_state) + mset (TaggedNodes ex_state) +
           sum_list (map (\<lambda>e. mset (snd e)) (OwnedNodes ex_state)) = mset (Status.Peer ex_status)
   \<and> length (ExitNodes ex_state) + length (MyNodes ex_state) + length (TaggedNodes ex_state) +
           sum_list (map (\<lambda>e. length (snd e)) (OwnedNodes ex_state)) = 7"
proof -
  have r: "GetState insertionSortCmpFunc HostName (Inr ex_status) (Inr ex_prefs) (Inr ex_lock) =
        Returns (ex_state, None)"
    by code_simp
  have l: "length (Status.Peer ex_status) = 7" by (simp add: ex_status_def)
  from C1_partition[OF insertionSortCmpFunc_contract r] l r insertionSortCmpFunc_contract
  show ?thesis by simp
qed

text \<open>
  C2. The claim holds when \<open>status.Self\<close> is present. With \<open>status.Self\<close> nil and a
  peer that is not an exit node, the peer loop dereferences the nil pointer and
  \<open>GetState\<close> panics: here on the example status without its local node.
\<close>

theorem C2_nil_self_panics:
  "NewIPNStateFromString (Status.BackendState (ex_status\<lparr>Status.Self := None\<rparr>)) = (Running, None)
   \<and> GetState insertionSortCmpFunc HostName
        (Inr (ex_status\<lparr>Status.Self := None\<rparr>)) (Inr ex_prefs) (Inr ex_lock)
      = Panics NilPointerDereference"
  by code_simp

text \<open>
  C4. If \<open>GetState\<close> returns a state, its \<open>RxBytes\<close> and \<open>TxBytes\<close> are the sums of the
  counters of all input peers, whatever bucket a peer lands in. The sums are sums of
  \<open>int64\<close> values; they are the sums of the integers whenever those fit into an
  \<open>int64\<close>.
\<close>

theorem C4_traffic:
  assumes "GetState srt pn (Inr status) (Inr prefs) (Inr lock) = Returns (st, None)"
  shows "State.RxBytes st = sum_list (map PeerStatus.RxBytes (Status.Peer status))
       \<and> State.TxBytes st = sum_list (map PeerStatus.TxBytes (Status.Peer status))
       \<and> (- (2 ^ 63) \<le> (\<Sum>p\<leftarrow>Status.Peer status. sint (PeerStatus.RxBytes p))
            \<and> (\<Sum>p\<leftarrow>Status.Peer status. sint (PeerStatus.RxBytes p)) < 2 ^ 63
          \<longrightarrow> sint (State.RxBytes st) = (\<Sum>p\<leftarrow>Status.Peer status. sint (PeerStatus.RxBytes p)))
       \<and> (- (2 ^ 63) \<le> (\<Sum>p\<leftarrow>Status.Peer status. sint (PeerStatus.TxBytes p))
            \<and> (\<Sum>p\<leftarrow>Status.Peer status. sint (PeerStatus.TxBytes p)) < 2 ^ 63
          \<longrightarrow> sint (State.TxBytes st) = (\<Sum>p\<leftarrow>Status.Peer status. sint (PeerStatus.TxBytes p)))"
proof -
  from GetState_fields[OF assms]
  have rx: "State.RxBytes st = sum_list (map PeerStatus.RxBytes (Status.Peer status))"
    and tx: "State.TxBytes st = sum_list (map PeerStatus.TxBytes (Status.Peer status))"
    by blast+
  have "sint (State.RxBytes st) = (\<Sum>p\<leftarrow>Status.Peer status. sint (PeerStatus.RxBytes p))"
    if "- (2 ^ 63) \<le> (\<Sum>p\<leftarrow>Status.Peer status. sint (PeerStatus.RxBytes p))"
      and "(\<Sum>p\<leftarrow>Status.Peer status. sint (PeerStatus.RxBytes p)) < 2 ^ 63"
    unfolding rx sint_sum_list_64 using that
    by (simp add: comp_def signed_take_bit_int_eq_self)
  moreover
  have "sint (State.TxBytes st) = (\<Sum>p\<leftarrow>Status.Peer status. sint (PeerStatus.TxBytes p))"
    if "- (2 ^ 63) \<le> (\<Sum>p\<leftarrow>Status.Peer status. sint (PeerStatus.TxBytes p))"
      and "(\<Sum>p\<leftarrow>Status.Peer status. sint (PeerStatus.TxBytes p)) < 2 ^ 63"
    unfolding tx sint_sum_list_64 using that
    by (simp add: comp_def signed_take_bit_int_eq_self)
  ultimately show ?thesis using rx tx by blast
qed

theorem C4_traffic_witness:
  "GetState insertionSortCmpFunc HostName (Inr ex_status) (Inr ex_prefs) (Inr ex_lock) =
        Returns (ex_state, None)
   \<and> State.RxBytes ex_state = 1 + 10 + 100 + 1000 + 3 + 7 + 5
   \<and> State.TxBytes ex_state = 2 + 20 + 200 + 2000 + 4 + 8 + 6
   \<and> sint (State.RxBytes ex_state) = 1126 \<and> sint (State.TxBytes ex_state) = 2240"
proof -
  have r: "GetState insertionSortCmpFunc HostName (Inr ex_status) (Inr ex_prefs) (Inr ex_lock) =
        Returns (ex_state, None)"
    by code_simp
  have p: "Status.Peer ex_status =
      [ex_owned, ex_exitB, ex_tagged, ex_exitA, ex_mine, ex_unknown, ex_owned2]"
    by (simp add: ex_status_def)
  have v: "map PeerStatus.RxBytes (Status.Peer ex_status) = [1, 10, 100, 1000, 3, 7, 5]"
    "map PeerStatus.TxBytes (Status.Peer ex_status) = [2, 20, 200, 2000, 4, 8, 6]"
    unfolding p by (simp_all add: ex_owned_def ex_exitB_def ex_tagged_def ex_exitA_def
        ex_mine_def ex_unknown_def ex_owned2_def)
  from C4_traffic[OF r] r show ?thesis
    unfolding v by (simp add: comp_def)
qed

text \<open>
  C5. If \<open>GetState\<close> returns a state, its \<open>TSVersion\<close> is the part of \<open>status.Version\<close>
  before the first \<open>-\<close>, and all of it when it has no \<open>-\<close>. Normalising twice changes
  nothing: a run whose \<open>status.Version\<close> is the \<open>TSVersion\<close> of an earlier run returns
  the same \<open>TSVersion\<close>.
\<close>

theorem C5_version_normalization:
  assumes "GetState srt pn (Inr status) (Inr prefs) (Inr lock) = Returns (st, None)"
  shows "(\<forall>pre post. Status.Version status = pre @ CHR ''-'' # post \<and> CHR ''-'' \<notin> set pre
            \<longrightarrow> State.TSVersion st = pre)
       \<and> (CHR ''-'' \<notin> set (Status.Version status) \<longrightarrow> State.TSVersion st = Status.Version status)
       \<and> (\<forall>status' prefs' lock' st'.
            GetState srt pn (Inr status') (Inr prefs') (Inr lock') = Returns (st', None)
            \<and> Status.Version status' = State.TSVersion st
            \<longrightarrow> State.TSVersion st' = State.TSVersion st)
       \<and> State.TSVersion (GetState_version (GetState_version st)) = State.TSVersion st"
proof -
  from GetState_fields[OF assms]
  have v: "State.TSVersion st = takeWhile (\<lambda>c. c \<noteq> CHR ''-'') (Status.Version status)"
    by blast
  have 1: "State.TSVersion st = pre"
    if "Status.Version status = pre @ CHR ''-'' # post" and "CHR ''-'' \<notin> set pre" for pre post
  proof -
    from that(2) have "\<And>x. x \<in> set pre \<Longrightarrow> x \<noteq> CHR ''-''" by auto
    then have "takeWhile (\<lambda>c. c \<noteq> CHR ''-'') (pre @ CHR ''-'' # post) = pre"
      by (simp add: takeWhile_append2)
    then show ?thesis unfolding v that(1) .
  qed
  have 2: "State.TSVersion st = Status.Version status"
    if "CHR ''-'' \<notin> set (Status.Version status)"
    unfolding v using that by (auto simp: takeWhile_eq_all_conv)
  have idem: "takeWhile (\<lambda>c. c \<noteq> CHR ''-'') (State.TSVersion st) = State.TSVersion st"
    unfolding v by (simp add: takeWhile_idem)
  have 3: "State.TSVersion st' = State.TSVersion st"
    if "GetState srt pn (Inr status') (Inr prefs') (Inr lock') = Returns (st', None)"
      and "Status.Version status' = State.TSVersion st" for status' prefs' lock' st'
  proof -
    from GetState_fields[OF that(1)]
    have "State.TSVersion st' = takeWhile (\<lambda>c. c \<noteq> CHR ''-'') (Status.Version status')"
      by blast
    then show ?thesis by (simp only: that(2) idem)
  qed
  have 4: "State.TSVersion (GetState_version (GetState_version st)) = State.TSVersion st"
    by (simp add: GetState_version_eq idem)
  from 1 2 3 4 show ?thesis by blast
qed

theorem C5_version_normalization_witness:
  "GetState insertionSortCmpFunc HostName (Inr ex_status) (Inr ex_prefs) (Inr ex_lock) =
        Returns (ex_state, None)
   \<and> Status.Version ex_status = ''1.70.0'' @ CHR ''-'' # ''abc123''
   \<and> CHR ''-'' \<notin> set ''1.70.0''
   \<and> State.TSVersion ex_state = ''1.70.0''
   \<and> GetState insertionSortCmpFunc HostName (Inr (ex_status\<lparr>Version := ''1.70.0''\<rparr>))
        (Inr ex_prefs) (Inr ex_lock) = Returns (ex_state, None)"
proof -
  have r: "GetState insertionSortCmpFunc HostName (Inr ex_status) (Inr ex_prefs) (Inr ex_lock) =
        Returns (ex_state, None)"
    by code_simp
  have r': "GetState insertionSortCmpFunc HostName (Inr (ex_status\<lparr>Version := ''1.70.0''\<rparr>))
        (Inr ex_prefs) (Inr ex_lock) = Returns (ex_state, None)"
    by code_simp
  have v: "Status.Version ex_status = ''1.70.0'' @ CHR ''-'' # ''abc123''"
    by (simp add: ex_status_def)
  have n: "CHR ''-'' \<notin> set ''1.70.0''" by simp
  from C5_version_normalization[OF r] v n have "State.TSVersion ex_state = ''1.70.0''"
    by blast
  with r r' v n show ?thesis by blast
qed

text \<open>
  C6. If \<open>GetState\<close> returns a state, \<open>LockKey\<close> is set, to the public key of the lock,
  exactly when the lock is enabled, the node key is present and the public key is not
  zero; \<open>IsLockedOut\<close> is true exactly when \<open>LockKey\<close> is set, the node key is not
  signed and the backend state, resolved from the tag of the status, is \<open>Running\<close>.
\<close>

theorem C6_lock:
  assumes "GetState srt pn (Inr status) (Inr prefs) (Inr lock) = Returns (st, None)"
  shows "(LockKey st \<noteq> None \<longleftrightarrow>
            Enabled lock \<and> NodeKey lock \<noteq> None \<and> NetworkLockStatus.PublicKey lock \<noteq> 0)
       \<and> (LockKey st = None \<or> LockKey st = Some (NetworkLockStatus.PublicKey lock))
       \<and> (IsLockedOut st \<longleftrightarrow>
            LockKey st \<noteq> None \<and> \<not> NodeKeySigned lock \<and> State.BackendState st = Running)
       \<and> NewIPNStateFromString (Status.BackendState status) = (State.BackendState st, None)
       \<and> (\<not> Enabled lock \<longrightarrow> LockKey st = None \<and> \<not> IsLockedOut st)
       \<and> (State.BackendState st = Stopped \<longrightarrow> \<not> IsLockedOut st)"
proof -
  from GetState_fields[OF assms]
  have k: "State.LockKey st = (if Enabled lock \<and> NodeKey lock \<noteq> None
                                \<and> \<not> IsZero (NetworkLockStatus.PublicKey lock)
                             then Some (NetworkLockStatus.PublicKey lock) else None)"
    and l: "State.IsLockedOut st = (Enabled lock \<and> NodeKey lock \<noteq> None
                                \<and> \<not> IsZero (NetworkLockStatus.PublicKey lock)
                                \<and> \<not> NodeKeySigned lock \<and> State.BackendState st = Running)"
    and b: "NewIPNStateFromString (Status.BackendState status) = (State.BackendState st, None)"
    by blast+
  show ?thesis unfolding k l using b by (auto simp: IsZero_def)
qed

theorem C6_lock_witness:
  "GetState insertionSortCmpFunc HostName (Inr ex_status) (Inr ex_prefs) (Inr ex_lock) =
        Returns (ex_state, None)
   \<and> Enabled ex_lock \<and> NodeKey ex_lock \<noteq> None \<and> NetworkLockStatus.PublicKey ex_lock \<noteq> 0
   \<and> \<not> NodeKeySigned ex_lock \<and> State.BackendState ex_state = Running
   \<and> LockKey ex_state = Some 5 \<and> IsLockedOut ex_state
   \<and> GetState insertionSortCmpFunc HostName (Inr (ex_status\<lparr>Status.BackendState := ''Stopped''\<rparr>))
        (Inr ex_prefs) (Inr ex_lock)
      = Returns (ex_state\<lparr>State.BackendState := Stopped, IsLockedOut := False\<rparr>, None)
   \<and> GetState insertionSortCmpFunc HostName (Inr ex_status) (Inr ex_prefs)
        (Inr (ex_lock\<lparr>Enabled := False\<rparr>))
      = Returns (ex_state\<lparr>LockKey := None, IsLockedOut := False\<rparr>, None)"
proof -
  have r: "GetState insertionSortCmpFunc HostName (Inr ex_status) (Inr ex_prefs) (Inr ex_lock) =
        Returns (ex_state, None)"
    by code_simp
  have r1: "GetState insertionSortCmpFunc HostName
        (Inr (ex_status\<lparr>Status.BackendState := ''Stopped''\<rparr>)) (Inr ex_prefs) (Inr ex_lock)
      = Returns (ex_state\<lparr>State.BackendState := Stopped, IsLockedOut := False\<rparr>, None)"
    by code_simp
  have r2: "GetState insertionSortCmpFunc HostName (Inr ex_status) (Inr ex_prefs)
        (Inr (ex_lock\<lparr>Enabled := False\<rparr>))
      = Returns (ex_state\<lparr>LockKey := None, IsLockedOut := False\<rparr>, None)"
    by code_simp
  have e: "Enabled ex_lock" "NodeKey ex_lock \<noteq> None" "NetworkLockStatus.PublicKey ex_lock \<noteq> 0"
    "\<not> NodeKeySigned ex_lock" "NetworkLockStatus.PublicKey ex_lock = 5"
    by (simp_all add: ex_lock_def)
  have b: "State.BackendState ex_state = Running" by (simp add: ex_state_def)
  from C6_lock[OF r] e b have "LockKey ex_state = Some 5 \<and> IsLockedOut ex_state"
    by auto
  with r r1 r2 e b show ?thesis by blast
qed

text \<open>
  C7. If \<open>GetState\<close> returns a state: without a selected exit node \<open>CurrentExitNode\<close> is
  nil and \<open>CurrentExitNodeName\<close> is empty; with one, \<open>CurrentExitNode\<close> is its id, and
  \<open>CurrentExitNodeName\<close> is the name of the first peer of the sorted \<open>ExitNodes\<close> with
  that id, and empty when \<open>ExitNodes\<close> has none.
\<close>

theorem C7_exit_node:
  assumes "GetState srt pn (Inr status) (Inr prefs) (Inr lock) = Returns (st, None)"
  shows "(Status.ExitNodeStatus status = None \<longrightarrow>
            CurrentExitNode st = None \<and> CurrentExitNodeName st = [])
       \<and> (\<forall>ens. Status.ExitNodeStatus status = Some ens \<longrightarrow>
            CurrentExitNode st = Some (ExitNodeStatus.ID ens)
            \<and> CurrentExitNodeName st =
                (case find (\<lambda>p. PeerStatus.ID p = ExitNodeStatus.ID ens) (ExitNodes st) of
                   None \<Rightarrow> [] | Some p \<Rightarrow> pn p)
            \<and> ((\<forall>p\<in>set (ExitNodes st). PeerStatus.ID p \<noteq> ExitNodeStatus.ID ens)
                   \<longrightarrow> CurrentExitNodeName st = []))"
proof -
  from GetState_fields[OF assms]
  have c: "State.CurrentExitNode st = map_option ExitNodeStatus.ID (Status.ExitNodeStatus status)"
    and n: "State.CurrentExitNodeName st = (case Status.ExitNodeStatus status of None \<Rightarrow> []
               | Some ens \<Rightarrow>
                  (case find (\<lambda>p. PeerStatus.ID p = ExitNodeStatus.ID ens) (State.ExitNodes st) of
                     None \<Rightarrow> [] | Some p \<Rightarrow> pn p))"
    by blast+
  have f: "find (\<lambda>p. PeerStatus.ID p = i) (ExitNodes st) = None"
    if "\<forall>p\<in>set (ExitNodes st). PeerStatus.ID p \<noteq> i" for i
    using that by (simp add: find_None_iff)
  show ?thesis unfolding c using n f by (auto split: option.splits)
qed

theorem C7_exit_node_witness:
  "GetState insertionSortCmpFunc HostName (Inr ex_status) (Inr ex_prefs) (Inr ex_lock) =
        Returns (ex_state, None)
   \<and> Status.ExitNodeStatus ex_status = Some \<lparr> ExitNodeStatus.ID = ''n2'', Online = True \<rparr>
   \<and> ExitNodes ex_state = [ex_exitA, ex_exitB]
   \<and> CurrentExitNode ex_state = Some ''n2''
   \<and> CurrentExitNodeName ex_state = HostName ex_exitB"
proof -
  have r: "GetState insertionSortCmpFunc HostName (Inr ex_status) (Inr ex_prefs) (Inr ex_lock) =
        Returns (ex_state, None)"
    by code_simp
  have e: "Status.ExitNodeStatus ex_status = Some \<lparr> ExitNodeStatus.ID = ''n2'', Online = True \<rparr>"
    by (simp add: ex_status_def)
  have x: "ExitNodes ex_state = [ex_exitA, ex_exitB]" by (simp add: ex_state_def)
  have f: "find (\<lambda>p. PeerStatus.ID p = ''n2'') [ex_exitA, ex_exitB] = Some ex_exitB"
    by (simp add: ex_exitA_def ex_exitB_def)
  from C7_exit_node[OF r] e
  have "CurrentExitNode ex_state = Some ''n2'' \<and> CurrentExitNodeName ex_state =
      (case find (\<lambda>p. PeerStatus.ID p = ''n2'') (ExitNodes ex_state) of
                   None \<Rightarrow> [] | Some p \<Rightarrow> HostName p)"
    by simp
  then have "CurrentExitNode ex_state = Some ''n2'' \<and> CurrentExitNodeName ex_state = HostName ex_exitB"
    unfolding x f by simp
  with r e x show ?thesis by blast
qed

text \<open>
  C8. A tag outside the seven known ones makes \<open>NewIPNStateFromString\<close> return an error
  whose message ends with the tag, and \<open>GetState\<close> then returns the zero \<open>State\<close> with
  an error that wraps it; each of the seven tags gives its value of \<open>ipn.State\<close> and
  no error.
\<close>

theorem C8_unknown_backend_state:
  "(v \<notin> {''NoState'', ''InUseOtherUser'', ''NeedsLogin'', ''NeedsMachineAuth'', ''Stopped'',
          ''Starting'', ''Running''} \<longrightarrow>
      NewIPNStateFromString v = (NoState, Some (ErrorString (''unknown ipn state: '' @ v)))
      \<and> Error (ErrorString (''unknown ipn state: '' @ v)) = ''unknown ipn state: '' @ v
      \<and> (Status.BackendState status = v \<longrightarrow>
           GetState srt pn (Inr status) (Inr prefs) (Inr lock) =
             Returns (State_zero,
               Some (WrapError (''cannot get status from state: unknown ipn state: '' @ v)
                      (ErrorString (''unknown ipn state: '' @ v))))))
   \<and> NewIPNStateFromString ''NoState'' = (NoState, None)
   \<and> NewIPNStateFromString ''InUseOtherUser'' = (InUseOtherUser, None)
   \<and> NewIPNStateFromString ''NeedsLogin'' = (NeedsLogin, None)
   \<and> NewIPNStateFromString ''NeedsMachineAuth'' = (NeedsMachineAuth, None)
   \<and> NewIPNStateFromString ''Stopped'' = (Stopped, None)
   \<and> NewIPNStateFromString ''Starting'' = (Starting, None)
   \<and> NewIPNStateFromString ''Running'' = (Running, None)"
proof -
  have u: "NewIPNStateFromString v = (NoState, Some (ErrorString (''unknown ipn state: '' @ v)))"
    if "v \<notin> {''NoState'', ''InUseOtherUser'', ''NeedsLogin'', ''NeedsMachineAuth'', ''Stopped'',
          ''Starting'', ''Running''}"
    using that unfolding NewIPNStateFromString_def by simp
  have g: "GetState srt pn (Inr status) (Inr prefs) (Inr lock) =
             Returns (State_zero,
               Some (WrapError (''cannot get status from state: unknown ipn state: '' @ v)
                      (ErrorString (''unknown ipn state: '' @ v))))"
    if "v \<notin> {''NoState'', ''InUseOtherUser'', ''NeedsLogin'', ''NeedsMachineAuth'', ''Stopped'',
          ''Starting'', ''Running''}" and "Status.BackendState status = v"
    using u[OF that(1)] that(2) by (simp add: GetState_def)
  have k: "NewIPNStateFromString ''NoState'' = (NoState, None)"
    "NewIPNStateFromString ''InUseOtherUser'' = (InUseOtherUser, None)"
    "NewIPNStateFromString ''NeedsLogin'' = (NeedsLogin, None)"
    "NewIPNStateFromString ''NeedsMachineAuth'' = (NeedsMachineAuth, None)"
    "NewIPNStateFromString ''Stopped'' = (Stopped, None)"
    "NewIPNStateFromString ''Starting'' = (Starting, None)"
    "NewIPNStateFromString ''Running'' = (Running, None)"
    unfolding NewIPNStateFromString_def by simp_all
  show ?thesis
    apply (intro conjI impI)
             apply (erule u)
            apply (simp only: Error.simps)
           apply (erule (1) g)
          apply (rule k)+
    done
qed

theorem C8_unknown_backend_state_witness:
  "''Weird'' \<notin> {''NoState'', ''InUseOtherUser'', ''NeedsLogin'', ''NeedsMachineAuth'',
       ''Stopped'', ''Starting'', ''Running''}
   \<and> NewIPNStateFromString ''Weird'' = (NoState, Some (ErrorString ''unknown ipn state: Weird''))
   \<and> Status.BackendState (ex_status\<lparr>Status.BackendState := ''Weird''\<rparr>) = ''Weird''
   \<and> GetState insertionSortCmpFunc HostName (Inr (ex_status\<lparr>Status.BackendState := ''Weird''\<rparr>))
        (Inr ex_prefs) (Inr ex_lock) =
      Returns (State_zero,
        Some (WrapError ''cannot get status from state: unknown ipn state: Weird''
               (ErrorString ''unknown ipn state: Weird'')))"
proof -
  have n: "''Weird'' \<notin> {''NoState'', ''InUseOtherUser'', ''NeedsLogin'', ''NeedsMachineAuth'',
       ''Stopped'', ''Starting'', ''Running''}"
    by simp
  have b: "Status.BackendState (ex_status\<lparr>Status.BackendState := ''Weird''\<rparr>) = ''Weird''"
    by simp
  from C8_unknown_backend_state[of "''Weird''" "ex_status\<lparr>Status.BackendState := ''Weird''\<rparr>"
      insertionSortCmpFunc HostName ex_prefs ex_lock] n b
  show ?thesis by simp
qed

text \<open>
  C10. If \<open>GetState\<close> returns a state: when the local node is present and its owner is
  not in the user directory, \<open>User\<close> points to the zero profile; when the owner is in
  the directory, \<open>User\<close> points to its profile; \<open>User\<close> is nil exactly when the local
  node is absent.
\<close>

theorem C10_user:
  assumes "GetState srt pn (Inr status) (Inr prefs) (Inr lock) = Returns (st, None)"
  shows "(\<forall>self. Status.Self status = Some self
              \<and> Status.User status (PeerStatus.UserID self) = None
            \<longrightarrow> State.User st = Some UserProfile_zero)
       \<and> (\<forall>self u. Status.Self status = Some self
              \<and> Status.User status (PeerStatus.UserID self) = Some u
            \<longrightarrow> State.User st = Some u)
       \<and> (State.User st = None \<longleftrightarrow> Status.Self status = None)"
proof -
  from GetState_fields[OF assms]
  have "State.User st = (case Status.Self status of None \<Rightarrow> None
               | Some self \<Rightarrow> Some (case Status.User status (PeerStatus.UserID self) of
                                       None \<Rightarrow> UserProfile_zero | Some u \<Rightarrow> u))"
    by blast
  then show ?thesis by (auto split: option.splits)
qed

theorem C10_user_witness:
  "GetState insertionSortCmpFunc HostName (Inr ex_status) (Inr ex_prefs) (Inr ex_lock) =
        Returns (ex_state, None)
   \<and> Status.Self ex_status = Some ex_self
   \<and> Status.User ex_status (PeerStatus.UserID ex_self) = None
   \<and> State.User ex_state = Some UserProfile_zero"
proof -
  have r: "GetState insertionSortCmpFunc HostName (Inr ex_status) (Inr ex_prefs) (Inr ex_lock) =
        Returns (ex_state, None)"
    by code_simp
  have s: "Status.Self ex_status = Some ex_self"
    and u: "Status.User ex_status (PeerStatus.UserID ex_self) = None"
    by (simp_all add: ex_status_def ex_self_def)
  from C10_user[OF r] s u have "State.User ex_state = Some UserProfile_zero" by blast
  with r s u show ?thesis by blast
qed

text \<open>
  C9. If \<open>GetState\<close> returns a state, every peer that reaches the last branch of the
  peer loop is in the bucket of \<open>OwnedNodes\<close> whose key is the display name of its
  owner, the login name when the display name is empty, and the empty string when the
  owner is not in the user directory; every bucket holds only such peers, under their
  key. \<open>OwnedNodeKeys\<close> is the sorted list, without duplicates, of the keys of
  \<open>OwnedNodes\<close>.
\<close>

theorem C9_owned_nodes:
  assumes "SortFunc_contract srt"
    and "GetState srt pn (Inr status) (Inr prefs) (Inr lock) = Returns (st, None)"
  shows "(\<forall>self. Status.Self status = Some self \<longrightarrow>
           (\<forall>p\<in>set (Status.Peer status).
              \<not> ExitNodeOption p \<and> PeerStatus.UserID p \<noteq> PeerStatus.UserID self \<and> \<not> IsTagged p
              \<longrightarrow> (\<exists>ns. map_of (OwnedNodes st)
                          (case Status.User status (PeerStatus.UserID p) of
                             None \<Rightarrow> []
                           | Some user \<Rightarrow> if UserProfile.DisplayName user = []
                                          then UserProfile.LoginName user
                                          else UserProfile.DisplayName user) = Some ns
                        \<and> p \<in> set ns)))
       \<and> (\<forall>k ns. map_of (OwnedNodes st) k = Some ns \<longrightarrow>
             (\<forall>p\<in>set ns. p \<in> set (Status.Peer status) \<and> \<not> ExitNodeOption p \<and> \<not> IsTagged p
                \<and> k = (case Status.User status (PeerStatus.UserID p) of
                             None \<Rightarrow> []
                           | Some user \<Rightarrow> if UserProfile.DisplayName user = []
                                          then UserProfile.LoginName user
                                          else UserProfile.DisplayName user)))
       \<and> sorted (OwnedNodeKeys st) \<and> distinct (OwnedNodeKeys st)
       \<and> set (OwnedNodeKeys st) = dom (map_of (OwnedNodes st))
       \<and> OwnedNodeKeys st = sorted_list_of_set (dom (map_of (OwnedNodes st)))"
proof -
  note b = GetState_OwnedNodes_map_of[OF assms(2)]
  have acc: "accountName status p = (case Status.User status (PeerStatus.UserID p) of
                             None \<Rightarrow> []
                           | Some user \<Rightarrow> if UserProfile.DisplayName user = []
                                          then UserProfile.LoginName user
                                          else UserProfile.DisplayName user)" for p
    by (simp add: accountName_def)
  have 1: "\<exists>ns. map_of (OwnedNodes st) (accountName status p) = Some ns \<and> p \<in> set ns"
    if "Status.Self status = Some self" and "p \<in> set (Status.Peer status)"
      and "\<not> ExitNodeOption p" and "PeerStatus.UserID p \<noteq> PeerStatus.UserID self"
      and "\<not> IsTagged p" for self p
  proof -
    from that have t: "toOwnedNodes status p" by simp
    with that(2) have "accountName status p \<in>
        accountName status ` {p \<in> set (Status.Peer status). toOwnedNodes status p}"
      by blast
    then have "map_of (OwnedNodes st) (accountName status p) = Some (sortNodes srt pn
        (filter (\<lambda>q. toOwnedNodes status q \<and> accountName status q = accountName status p)
           (Status.Peer status)))"
      unfolding b by simp
    moreover have "p \<in> set (sortNodes srt pn
        (filter (\<lambda>q. toOwnedNodes status q \<and> accountName status q = accountName status p)
           (Status.Peer status)))"
      unfolding set_sortNodes[OF assms(1)] using t that(2) by simp
    ultimately show ?thesis by blast
  qed
  have 2: "p \<in> set (Status.Peer status) \<and> \<not> ExitNodeOption p \<and> \<not> IsTagged p
      \<and> k = accountName status p"
    if "map_of (OwnedNodes st) k = Some ns" and "p \<in> set ns" for k ns p
  proof -
    from that(1) have "ns = sortNodes srt pn
        (filter (\<lambda>q. toOwnedNodes status q \<and> accountName status q = k) (Status.Peer status))"
      unfolding b by (simp split: if_splits)
    with that(2) have "p \<in> set
        (filter (\<lambda>q. toOwnedNodes status q \<and> accountName status q = k) (Status.Peer status))"
      by (simp only: set_sortNodes[OF assms(1)])
    then show ?thesis by auto
  qed
  from GetState_OwnedNodeKeys[OF assms(2)] dom_GetState_OwnedNodes[OF assms(2)]
  have 3: "sorted (OwnedNodeKeys st)" "distinct (OwnedNodeKeys st)"
    "set (OwnedNodeKeys st) = dom (map_of (OwnedNodes st))"
    by simp_all
  from sorted_distinct_sort_unique[OF 3(1,2)]
  have 4: "OwnedNodeKeys st = sorted_list_of_set (dom (map_of (OwnedNodes st)))"
    by (simp only: 3(3))
  from 1 have a1: "\<forall>self. Status.Self status = Some self \<longrightarrow>
           (\<forall>p\<in>set (Status.Peer status).
              \<not> ExitNodeOption p \<and> PeerStatus.UserID p \<noteq> PeerStatus.UserID self \<and> \<not> IsTagged p
              \<longrightarrow> (\<exists>ns. map_of (OwnedNodes st) (accountName status p) = Some ns \<and> p \<in> set ns))"
    by blast
  from 2 have a2: "\<forall>k ns. map_of (OwnedNodes st) k = Some ns \<longrightarrow>
             (\<forall>p\<in>set ns. p \<in> set (Status.Peer status) \<and> \<not> ExitNodeOption p \<and> \<not> IsTagged p
                \<and> k = accountName status p)"
    by blast
  show ?thesis unfolding acc[symmetric] by (intro conjI a1 a2 3 4)
qed

theorem C9_owned_nodes_witness:
  "SortFunc_contract (insertionSortCmpFunc :: (PeerStatus \<Rightarrow> PeerStatus \<Rightarrow> int) \<Rightarrow> _)
   \<and> GetState insertionSortCmpFunc HostName (Inr ex_status) (Inr ex_prefs) (Inr ex_lock) =
        Returns (ex_state, None)
   \<and> Status.Self ex_status = Some ex_self
   \<and> ex_unknown \<in> set (Status.Peer ex_status)
   \<and> \<not> ExitNodeOption ex_unknown \<and> PeerStatus.UserID ex_unknown \<noteq> PeerStatus.UserID ex_self
   \<and> \<not> IsTagged ex_unknown \<and> Status.User ex_status (PeerStatus.UserID ex_unknown) = None
   \<and> map_of (OwnedNodes ex_state) [] = Some [ex_unknown]
   \<and> map_of (OwnedNodes ex_state) ''carol@example.com'' = Some [ex_owned2, ex_owned]
   \<and> OwnedNodeKeys ex_state = [[], ''carol@example.com'']
   \<and> OwnedNodeKeys ex_state = sorted_list_of_set (dom (map_of (OwnedNodes ex_state)))"
proof -
  have r: "GetState insertionSortCmpFunc HostName (Inr ex_status) (Inr ex_prefs) (Inr ex_lock) =
        Returns (ex_state, None)"
    by code_simp
  have s: "Status.Self ex_status = Some ex_self"
    "ex_unknown \<in> set (Status.Peer ex_status)"
    "Status.User ex_status (PeerStatus.UserID ex_unknown) = None"
    by (simp_all add: ex_status_def ex_unknown_def)
  have u: "\<not> ExitNodeOption ex_unknown" "PeerStatus.UserID ex_unknown \<noteq> PeerStatus.UserID ex_self"
    "\<not> IsTagged ex_unknown"
    by (simp_all add: ex_unknown_def ex_self_def IsTagged_def)
  have o: "map_of (OwnedNodes ex_state) [] = Some [ex_unknown]"
    "map_of (OwnedNodes ex_state) ''carol@example.com'' = Some [ex_owned2, ex_owned]"
    "OwnedNodeKeys ex_state = [[], ''carol@example.com'']"
    by (simp_all add: ex_state_def)
  from C9_owned_nodes[OF insertionSortCmpFunc_contract r]
  have "OwnedNodeKeys ex_state = sorted_list_of_set (dom (map_of (OwnedNodes ex_state)))"
    by blast
  with insertionSortCmpFunc_contract r s u o show ?thesis by blast
qed

text \<open>
  C3. What the code guarantees: if \<open>GetState\<close> returns a state, each of \<open>ExitNodes\<close>,
  \<open>MyNodes\<close>, \<open>TaggedNodes\<close> and each bucket of \<open>OwnedNodes\<close> is in non-decreasing
  order of the display names, compared with \<open>strings.Compare\<close>. A second run on the same
  status, visiting the peers of \<open>status.Peer\<close> in any other order, returns in every
  one of these sequences the same peers, with the same display name at every position,
  and the same \<open>OwnedNodeKeys\<close> and bucket keys; it returns the very same sequence
  wherever the peers of that sequence have pairwise different display names. Only the
  order among peers that share a display name is left open.
\<close>

theorem C3_sorted_deterministic:
  assumes "SortFunc_contract srt"
    and "GetState srt pn (Inr status) (Inr prefs) (Inr lock) = Returns (st, None)"
    and "GetState srt pn (Inr (status\<lparr>Peer := peers'\<rparr>)) (Inr prefs) (Inr lock) =
           Returns (st', None)"
    and "mset peers' = mset (Status.Peer status)"
  shows "sorted_wrt (\<lambda>a b. strings_Compare (pn a) (pn b) \<le> 0) (ExitNodes st)
       \<and> sorted_wrt (\<lambda>a b. strings_Compare (pn a) (pn b) \<le> 0) (MyNodes st)
       \<and> sorted_wrt (\<lambda>a b. strings_Compare (pn a) (pn b) \<le> 0) (TaggedNodes st)
       \<and> (\<forall>k ns. map_of (OwnedNodes st) k = Some ns \<longrightarrow>
             sorted_wrt (\<lambda>a b. strings_Compare (pn a) (pn b) \<le> 0) ns)
       \<and> (inj_on pn (set (ExitNodes st)) \<longrightarrow> ExitNodes st' = ExitNodes st)
       \<and> (inj_on pn (set (MyNodes st)) \<longrightarrow> MyNodes st' = MyNodes st)
       \<and> (inj_on pn (set (TaggedNodes st)) \<longrightarrow> TaggedNodes st' = TaggedNodes st)
       \<and> (\<forall>k ns. map_of (OwnedNodes st) k = Some ns \<and> inj_on pn (set ns) \<longrightarrow>
             map_of (OwnedNodes st') k = Some ns)
       \<and> dom (map_of (OwnedNodes st')) = dom (map_of (OwnedNodes st))
       \<and> OwnedNodeKeys st' = OwnedNodeKeys st
       \<and> mset (ExitNodes st') = mset (ExitNodes st)
       \<and> map pn (ExitNodes st') = map pn (ExitNodes st)
       \<and> mset (MyNodes st') = mset (MyNodes st)
       \<and> map pn (MyNodes st') = map pn (MyNodes st)
       \<and> mset (TaggedNodes st') = mset (TaggedNodes st)
       \<and> map pn (TaggedNodes st') = map pn (TaggedNodes st)
       \<and> (\<forall>k ns. map_of (OwnedNodes st) k = Some ns \<longrightarrow>
             (\<exists>ns'. map_of (OwnedNodes st') k = Some ns'
                \<and> mset ns' = mset ns \<and> map pn ns' = map pn ns))"
proof -
  note c = assms(1) and r = assms(2) and r' = assms(3) and m = assms(4)
  let ?ps = "Status.Peer status"
  from m have s: "set peers' = set ?ps" by (metis set_mset_mset)
  have mf: "mset (filter P peers') = mset (filter P ?ps)" for P
    by (simp only: mset_filter m)
  from GetState_fields[OF r]
  have e: "ExitNodes st = sortNodes srt pn (filter ExitNodeOption ?ps)"
    and y: "MyNodes st = sortNodes srt pn (filter (toMyNodes status) ?ps)"
    and t: "TaggedNodes st = sortNodes srt pn (filter (toTaggedNodes status) ?ps)"
    by blast+
  from GetState_fields[OF r']
  have e': "ExitNodes st' = sortNodes srt pn (filter ExitNodeOption peers')"
    and y': "MyNodes st' = sortNodes srt pn (filter (toMyNodes status) peers')"
    and t': "TaggedNodes st' = sortNodes srt pn (filter (toTaggedNodes status) peers')"
    by simp_all
  note b = GetState_OwnedNodes_map_of[OF r]
  have b': "map_of (OwnedNodes st') k =
     (if k \<in> accountName status ` {p \<in> set ?ps. toOwnedNodes status p}
      then Some (sortNodes srt pn
        (filter (\<lambda>p. toOwnedNodes status p \<and> accountName status p = k) peers'))
      else None)" for k
    using GetState_OwnedNodes_map_of[OF r', of k] by (simp add: s)
  have 1: "sorted_wrt (\<lambda>a b. strings_Compare (pn a) (pn b) \<le> 0) (ExitNodes st)"
    unfolding e by (rule sorted_wrt_sortNodes[OF c])
  have 2: "sorted_wrt (\<lambda>a b. strings_Compare (pn a) (pn b) \<le> 0) (MyNodes st)"
    unfolding y by (rule sorted_wrt_sortNodes[OF c])
  have 3: "sorted_wrt (\<lambda>a b. strings_Compare (pn a) (pn b) \<le> 0) (TaggedNodes st)"
    unfolding t by (rule sorted_wrt_sortNodes[OF c])
  have 4: "\<forall>k ns. map_of (OwnedNodes st) k = Some ns \<longrightarrow>
             sorted_wrt (\<lambda>a b. strings_Compare (pn a) (pn b) \<le> 0) ns"
  proof (intro allI impI)
    fix k ns assume "map_of (OwnedNodes st) k = Some ns"
    then have "ns = sortNodes srt pn
        (filter (\<lambda>p. toOwnedNodes status p \<and> accountName status p = k) ?ps)"
      unfolding b by (simp split: if_splits)
    then show "sorted_wrt (\<lambda>a b. strings_Compare (pn a) (pn b) \<le> 0) ns"
      by (simp only: sorted_wrt_sortNodes[OF c])
  qed
  have 5: "inj_on pn (set (ExitNodes st)) \<longrightarrow> ExitNodes st' = ExitNodes st"
    unfolding e e' using sortNodes_perm_unique[OF c mf] by blast
  have 6: "inj_on pn (set (MyNodes st)) \<longrightarrow> MyNodes st' = MyNodes st"
    unfolding y y' using sortNodes_perm_unique[OF c mf] by blast
  have 7: "inj_on pn (set (TaggedNodes st)) \<longrightarrow> TaggedNodes st' = TaggedNodes st"
    unfolding t t' using sortNodes_perm_unique[OF c mf] by blast
  have 8: "\<forall>k ns. map_of (OwnedNodes st) k = Some ns \<and> inj_on pn (set ns) \<longrightarrow>
             map_of (OwnedNodes st') k = Some ns"
  proof (intro allI impI, elim conjE)
    fix k ns assume a: "map_of (OwnedNodes st) k = Some ns" and i: "inj_on pn (set ns)"
    from a have k: "k \<in> accountName status ` {p \<in> set ?ps. toOwnedNodes status p}"
      and n: "ns = sortNodes srt pn
        (filter (\<lambda>p. toOwnedNodes status p \<and> accountName status p = k) ?ps)"
      unfolding b by (simp_all split: if_splits)
    from sortNodes_perm_unique[OF c mf i[unfolded n]]
    have "sortNodes srt pn
        (filter (\<lambda>p. toOwnedNodes status p \<and> accountName status p = k) peers') = ns"
      by (simp only: n)
    with k show "map_of (OwnedNodes st') k = Some ns" unfolding b' by simp
  qed
  have 9: "dom (map_of (OwnedNodes st')) = dom (map_of (OwnedNodes st))"
    unfolding dom_def b b' by auto
  from GetState_OwnedNodeKeys[OF r] GetState_OwnedNodeKeys[OF r']
  have 10: "OwnedNodeKeys st' = OwnedNodeKeys st"
    by (intro sorted_distinct_set_eq) (simp_all add: s)
  note nm = sortNodes_perm_names[where pn = pn, OF c mf]
  have 11: "mset (ExitNodes st') = mset (ExitNodes st)"
    and 12: "map pn (ExitNodes st') = map pn (ExitNodes st)"
    unfolding e e' by (rule nm[THEN conjunct1], rule nm[THEN conjunct2])
  have 13: "mset (MyNodes st') = mset (MyNodes st)"
    and 14: "map pn (MyNodes st') = map pn (MyNodes st)"
    unfolding y y' by (rule nm[THEN conjunct1], rule nm[THEN conjunct2])
  have 15: "mset (TaggedNodes st') = mset (TaggedNodes st)"
    and 16: "map pn (TaggedNodes st') = map pn (TaggedNodes st)"
    unfolding t t' by (rule nm[THEN conjunct1], rule nm[THEN conjunct2])
  have 17: "\<forall>k ns. map_of (OwnedNodes st) k = Some ns \<longrightarrow>
             (\<exists>ns'. map_of (OwnedNodes st') k = Some ns'
                \<and> mset ns' = mset ns \<and> map pn ns' = map pn ns)"
  proof (intro allI impI)
    fix k ns assume a: "map_of (OwnedNodes st) k = Some ns"
    let ?P = "\<lambda>p. toOwnedNodes status p \<and> accountName status p = k"
    from a have k: "k \<in> accountName status ` {p \<in> set ?ps. toOwnedNodes status p}"
      and n: "ns = sortNodes srt pn (filter ?P ?ps)"
      unfolding b by (simp_all split: if_splits)
    from k have "map_of (OwnedNodes st') k = Some (sortNodes srt pn (filter ?P peers'))"
      unfolding b' by simp
    moreover
    have "mset (sortNodes srt pn (filter ?P peers')) = mset ns"
      and "map pn (sortNodes srt pn (filter ?P peers')) = map pn ns"
      unfolding n by (rule nm[THEN conjunct1], rule nm[THEN conjunct2])
    ultimately show "\<exists>ns'. map_of (OwnedNodes st') k = Some ns'
                \<and> mset ns' = mset ns \<and> map pn ns' = map pn ns"
      by blast
  qed
  show ?thesis by (intro conjI 1 2 3 4 5 6 7 8 9 10 11 12 13 14 15 16 17)
qed


theorem C3_sorted_deterministic_witness:
  "SortFunc_contract (insertionSortCmpFunc :: (PeerStatus \<Rightarrow> PeerStatus \<Rightarrow> int) \<Rightarrow> _)
   \<and> GetState insertionSortCmpFunc HostName
        (Inr (ex_status\<lparr>Peer := [ex_exitA, ex_exitA2, ex_exitB]\<rparr>)) (Inr ex_prefs) (Inr ex_lock) =
        Returns (ex_state\<lparr>ExitNodes := [ex_exitA, ex_exitA2, ex_exitB], MyNodes := [],
          TaggedNodes := [], OwnedNodeKeys := [], OwnedNodes := [],
          State.RxBytes := 1021, State.TxBytes := 2032\<rparr>, None)
   \<and> GetState insertionSortCmpFunc HostName
        (Inr (ex_status\<lparr>Peer := [ex_exitB, ex_exitA2, ex_exitA]\<rparr>)) (Inr ex_prefs) (Inr ex_lock) =
        Returns (ex_state\<lparr>ExitNodes := [ex_exitA2, ex_exitA, ex_exitB], MyNodes := [],
          TaggedNodes := [], OwnedNodeKeys := [], OwnedNodes := [],
          State.RxBytes := 1021, State.TxBytes := 2032\<rparr>, None)
   \<and> mset [ex_exitB, ex_exitA2, ex_exitA] = mset [ex_exitA, ex_exitA2, ex_exitB]
   \<and> sorted_wrt (\<lambda>a b. strings_Compare (HostName a) (HostName b) \<le> 0)
        [ex_exitA, ex_exitA2, ex_exitB]
   \<and> mset [ex_exitA2, ex_exitA, ex_exitB] = mset [ex_exitA, ex_exitA2, ex_exitB]
   \<and> map HostName [ex_exitA2, ex_exitA, ex_exitB] = map HostName [ex_exitA, ex_exitA2, ex_exitB]"
proof -
  let ?st = "ex_state\<lparr>ExitNodes := [ex_exitA, ex_exitA2, ex_exitB], MyNodes := [],
          TaggedNodes := [], OwnedNodeKeys := [], OwnedNodes := [],
          State.RxBytes := 1021, State.TxBytes := 2032\<rparr>"
  let ?st' = "ex_state\<lparr>ExitNodes := [ex_exitA2, ex_exitA, ex_exitB], MyNodes := [],
          TaggedNodes := [], OwnedNodeKeys := [], OwnedNodes := [],
          State.RxBytes := 1021, State.TxBytes := 2032\<rparr>"
  have r: "GetState insertionSortCmpFunc HostName
        (Inr (ex_status\<lparr>Peer := [ex_exitA, ex_exitA2, ex_exitB]\<rparr>)) (Inr ex_prefs) (Inr ex_lock) =
        Returns (?st, None)"
    by code_simp
  have r': "GetState insertionSortCmpFunc HostName
        (Inr (ex_status\<lparr>Peer := [ex_exitB, ex_exitA2, ex_exitA]\<rparr>)) (Inr ex_prefs) (Inr ex_lock) =
        Returns (?st', None)"
    by code_simp
  have u: "ex_status\<lparr>Peer := [ex_exitA, ex_exitA2, ex_exitB]\<rparr>
             \<lparr>Peer := [ex_exitB, ex_exitA2, ex_exitA]\<rparr>
           = ex_status\<lparr>Peer := [ex_exitB, ex_exitA2, ex_exitA]\<rparr>"
    by simp
  have m: "mset [ex_exitB, ex_exitA2, ex_exitA] =
      mset (Status.Peer (ex_status\<lparr>Peer := [ex_exitA, ex_exitA2, ex_exitB]\<rparr>))"
    by simp
  note t = C3_sorted_deterministic[OF insertionSortCmpFunc_contract r r'[folded u] m]
  have x: "ExitNodes ?st = [ex_exitA, ex_exitA2, ex_exitB]"
    "ExitNodes ?st' = [ex_exitA2, ex_exitA, ex_exitB]"
    by simp_all
  from t have 1: "sorted_wrt (\<lambda>a b. strings_Compare (HostName a) (HostName b) \<le> 0)
      (ExitNodes ?st)"
    by (rule conjunct1)
  from t have 2: "mset (ExitNodes ?st') = mset (ExitNodes ?st)"
    by (elim conjE)
  from t have 3: "map HostName (ExitNodes ?st') = map HostName (ExitNodes ?st)"
    by (elim conjE)
  have m': "mset [ex_exitB, ex_exitA2, ex_exitA] = mset [ex_exitA, ex_exitA2, ex_exitB]"
    by simp
  show ?thesis
    by (intro conjI insertionSortCmpFunc_contract r r' m' 1[unfolded x] 2[unfolded x] 3[unfolded x])
qed

text \<open>
  C3 as stated fails. \<open>status.Peer\<close> is a Go map, and the order in which \<open>range\<close>
  visits it differs from run to run. With two exit nodes of the same display name,
  the run that visits \<open>ex_exitA\<close> first and the run that visits \<open>ex_exitA2\<close> first
  return \<open>ExitNodes\<close> in different orders, for the same status. (On two elements
  \<open>slices.SortFunc\<close> is the insertion sort.)
\<close>

theorem C3_counterexample:
  "HostName ex_exitA2 = HostName ex_exitA
   \<and> ex_exitA2 \<noteq> ex_exitA
   \<and> mset [ex_exitA2, ex_exitA] = mset [ex_exitA, ex_exitA2]
   \<and> map_option (ExitNodes \<circ> fst) (returned (GetState insertionSortCmpFunc HostName
        (Inr (ex_status\<lparr>Peer := [ex_exitA, ex_exitA2]\<rparr>)) (Inr ex_prefs) (Inr ex_lock)))
      = Some [ex_exitA, ex_exitA2]
   \<and> map_option (ExitNodes \<circ> fst) (returned (GetState insertionSortCmpFunc HostName
        (Inr (ex_status\<lparr>Peer := [ex_exitA2, ex_exitA]\<rparr>)) (Inr ex_prefs) (Inr ex_lock)))
      = Some [ex_exitA2, ex_exitA]
   \<and> [ex_exitA, ex_exitA2] \<noteq> [ex_exitA2, ex_exitA]"
proof -
  have h: "HostName ex_exitA2 = HostName ex_exitA" and d: "ex_exitA2 \<noteq> ex_exitA"
    by (simp_all add: ex_exitA_def ex_exitA2_def)
  have m: "mset [ex_exitA2, ex_exitA] = mset [ex_exitA, ex_exitA2]" by simp
  have 1: "map_option (ExitNodes \<circ> fst) (returned (GetState insertionSortCmpFunc HostName
        (Inr (ex_status\<lparr>Peer := [ex_exitA, ex_exitA2]\<rparr>)) (Inr ex_prefs) (Inr ex_lock)))
      = Some [ex_exitA, ex_exitA2]"
    by code_simp
  have 2: "map_option (ExitNodes \<circ> fst) (returned (GetState insertionSortCmpFunc HostName
        (Inr (ex_status\<lparr>Peer := [ex_exitA2, ex_exitA]\<rparr>)) (Inr ex_prefs) (Inr ex_lock)))
      = Some [ex_exitA2, ex_exitA]"
    by code_simp
  from d have n: "[ex_exitA, ex_exitA2] \<noteq> [ex_exitA2, ex_exitA]" by simp
  show ?thesis by (intro conjI h d m 1 2 n)
qed

end
